theory Spec2Isabelle
  imports Main
begin

section \<open>Values\<close>

text \<open>
  A decoded JSON document. A Python \<open>dict\<close> is an association list read with
  \<open>map_of\<close>, which is what \<open>dict.get\<close> does on a dictionary with distinct keys.
\<close>

datatype json =
    JNull
  | JBool bool
  | JInt int
  | JStr string
  | JList "json list"
  | JObj "(string \<times> json) list"

type_synonym body = "(string \<times> json) list"

text \<open>Python truthiness (\<open>if x:\<close>) of a decoded value and of an optional string.\<close>

fun truthy :: "json \<Rightarrow> bool" where
  "truthy JNull = False"
| "truthy (JBool b) = b"
| "truthy (JInt i) = (i \<noteq> 0)"
| "truthy (JStr s) = (s \<noteq> [])"
| "truthy (JList xs) = (xs \<noteq> [])"
| "truthy (JObj kvs) = (kvs \<noteq> [])"

fun truthy_token :: "string option \<Rightarrow> bool" where
  "truthy_token None = False"
| "truthy_token (Some t) = (t \<noteq> [])"

text \<open>
  Exceptions. \<open>HTTPError\<close> and \<open>RequestException\<close> are the classes of the
  \<open>requests\<close> library (the former a subclass of the latter); \<open>Exception_max_retries\<close> is
  the generic \<open>Exception("Max retries (N) exceeded for url")\<close>; \<open>Neo4jError\<close> stands for
  whatever the database driver raises.
\<close>

datatype neo4j_error =
    ServiceUnavailable | CypherSyntaxError | CypherTypeError | MergeNullKey | EvaluationError

datatype exn =
    HTTPError int
  | RequestException
  | KeyError string
  | TypeError
  | AttributeError
  | ValueError
  | NameError string
  | Exception_max_retries int string
  | Neo4jError neo4j_error

text \<open>\<open>isinstance(e, requests.exceptions.RequestException)\<close>.\<close>

fun is_RequestException :: "exn \<Rightarrow> bool" where
  "is_RequestException (HTTPError c) = True"
| "is_RequestException RequestException = True"
| "is_RequestException (KeyError k) = False"
| "is_RequestException TypeError = False"
| "is_RequestException AttributeError = False"
| "is_RequestException ValueError = False"
| "is_RequestException (NameError x) = False"
| "is_RequestException (Exception_max_retries n u) = False"
| "is_RequestException (Neo4jError e) = False"

section \<open>The API client\<close>

text \<open>
  What one call of \<open>session.get\<close> (or \<open>session.post\<close>) followed by
  \<open>raise_for_status()\<close>, \<open>json()\<close> and \<open>headers.get("NextPageToken")\<close> can
  produce: a decoded body with the optional header, an \<open>HTTPError\<close> carrying the
  status code, or another \<open>RequestException\<close> (connection failure, timeout).
\<close>

datatype http_outcome =
    Ok_response body "string option"
  | Raise_HTTPError int
  | Raise_RequestException

type_synonym params = "string \<rightharpoonup> string"

record config =
  api_url :: string
  max_retries :: int

text \<open>
  The mutable state of the client and what it has done so far: the bearer token, every
  GET issued with its parameters and outcome, the number of token POSTs, and the
  arguments of every \<open>time.sleep\<close>.
\<close>

record api_state =
  token :: "json option"
  history :: "(params \<times> http_outcome) list"
  posts :: nat
  sleeps :: "nat list"

text \<open>
  The remote side: how it answers a GET and a token POST, given everything the client
  has done so far.
\<close>

record env =
  server :: "api_state \<Rightarrow> string \<Rightarrow> params \<Rightarrow> http_outcome"
  auth_server :: "api_state \<Rightarrow> http_outcome"

text \<open>
  \<open>authenticate\<close>: one POST; a \<open>RequestException\<close> (which \<open>HTTPError\<close> is) gives
  \<open>False\<close>; a body without \<open>access_token\<close> raises \<open>KeyError\<close>, which the handler does
  not catch.
\<close>

definition authenticate :: "env \<Rightarrow> api_state \<Rightarrow> (exn + bool) \<times> api_state" where
  "authenticate E st =
     (let st1 = st\<lparr>posts := Suc (posts st)\<rparr> in
      case auth_server E st of
        Ok_response data hdr \<Rightarrow>
          (case map_of data ''access_token'' of
             None \<Rightarrow> (Inl (KeyError ''access_token''), st1)
           | Some t \<Rightarrow> (Inr True, st1\<lparr>token := Some t\<rparr>))
      | Raise_HTTPError c \<Rightarrow> (Inr False, st1)
      | Raise_RequestException \<Rightarrow> (Inr False, st1))"

definition sleep :: "nat \<Rightarrow> api_state \<Rightarrow> api_state" where
  "sleep wait_time st = st\<lparr>sleeps := sleeps st @ [wait_time]\<rparr>"

text \<open>
  The body of \<open>for attempt in range(max_retries)\<close> in \<open>_make_single_request\<close>, as a
  recursion over the attempts still to run. Falling out of the loop raises the generic
  \<open>Exception("Max retries (N) exceeded for url")\<close>.
\<close>

fun retry_loop ::
  "env \<Rightarrow> config \<Rightarrow> string \<Rightarrow> params \<Rightarrow> nat list \<Rightarrow> api_state
     \<Rightarrow> (exn + body \<times> string option) \<times> api_state" where
  "retry_loop E cfg url ps [] st = (Inl (Exception_max_retries (max_retries cfg) url), st)"
| "retry_loop E cfg url ps (attempt # rest) st =
     (let out = server E st url ps;
          st1 = st\<lparr>history := history st @ [(ps, out)]\<rparr> in
      case out of
        Ok_response data next_token \<Rightarrow> (Inr (data, next_token), st1)
      | Raise_HTTPError code \<Rightarrow>
          if code = 401 then
            (case authenticate E st1 of
               (Inl e, st2) \<Rightarrow> (Inl e, st2)
             | (Inr ok, st2) \<Rightarrow>
                 if ok then retry_loop E cfg url ps rest st2
                 else (Inl (HTTPError code), st2))
          else if code = 429 then
            retry_loop E cfg url ps rest (sleep (2 ^ attempt) st1)
          else if 500 \<le> code \<and> code < 600 then
            retry_loop E cfg url ps rest (sleep (2 ^ attempt) st1)
          else (Inl (HTTPError code), st1)
      | Raise_RequestException \<Rightarrow>
          if int attempt < max_retries cfg - 1 then
            retry_loop E cfg url ps rest (sleep (2 ^ attempt) st1)
          else (Inl RequestException, st1))"

definition make_single_request ::
  "env \<Rightarrow> config \<Rightarrow> string \<Rightarrow> params \<Rightarrow> api_state
     \<Rightarrow> (exn + body \<times> string option) \<times> api_state" where
  "make_single_request E cfg url ps st =
     retry_loop E cfg url ps [0 ..< nat (max_retries cfg)] st"

text \<open>
  \<open>items = data.get("items", [])\<close> followed by \<open>all_items.extend(items)\<close>: a list is
  appended element by element, a string character by character, a dictionary key by
  key; \<open>None\<close>, a number or a boolean is not iterable.
\<close>

definition items_of :: "body \<Rightarrow> exn + json list" where
  "items_of data =
     (case map_of data ''items'' of
        None \<Rightarrow> Inr []
      | Some (JList xs) \<Rightarrow> Inr xs
      | Some (JStr s) \<Rightarrow> Inr (map (\<lambda>c. JStr [c]) s)
      | Some (JObj kvs) \<Rightarrow> Inr (map (\<lambda>kv. JStr (fst kv)) kvs)
      | Some JNull \<Rightarrow> Inl TypeError
      | Some (JBool b) \<Rightarrow> Inl TypeError
      | Some (JInt i) \<Rightarrow> Inl TypeError)"

text \<open>The parameters of the next page request.\<close>

definition paginated_params :: "params \<Rightarrow> bool \<Rightarrow> string option \<Rightarrow> params" where
  "paginated_params ps paginated next_page_token =
     (case next_page_token of
        None \<Rightarrow> ps
      | Some t \<Rightarrow> if paginated \<and> t \<noteq> [] then ps(''pageToken'' \<mapsto> t) else ps)"

text \<open>
  The \<open>while True\<close> loop of \<open>_make_request\<close>. Nothing in the code bounds the number
  of pages, so the loop is a partial function: \<open>None\<close> is a run that never returns.
\<close>

partial_function (option) request_loop ::
  "env \<Rightarrow> config \<Rightarrow> string \<Rightarrow> params \<Rightarrow> bool \<Rightarrow> json list \<Rightarrow> string option \<Rightarrow> nat
     \<Rightarrow> api_state \<Rightarrow> ((exn + json list) \<times> api_state) option" where
  "request_loop E cfg url ps paginated all_items next_page_token page_num st =
     (case make_single_request E cfg url (paginated_params ps paginated next_page_token) st of
        (Inl e, st1) \<Rightarrow> Some (Inl e, st1)
      | (Inr (data, tok), st1) \<Rightarrow>
          (case items_of data of
             Inl e \<Rightarrow> Some (Inl e, st1)
           | Inr items \<Rightarrow>
               if \<not> paginated \<or> \<not> truthy_token tok
               then Some (Inr (all_items @ items), st1)
               else request_loop E cfg url ps paginated (all_items @ items) tok
                      (page_num + 1) st1))"

definition make_request ::
  "env \<Rightarrow> config \<Rightarrow> string \<Rightarrow> params option \<Rightarrow> bool \<Rightarrow> api_state
     \<Rightarrow> ((exn + json list) \<times> api_state) option" where
  "make_request E cfg endpoint ps paginated st =
     request_loop E cfg (api_url cfg @ endpoint)
       (case ps of None \<Rightarrow> Map.empty | Some p \<Rightarrow> p) paginated [] None 1 st"

text \<open>The number of 401 responses in a stretch of the request history.\<close>

definition count_401 :: "(params \<times> http_outcome) list \<Rightarrow> nat" where
  "count_401 h = length (filter (\<lambda>e. snd e = Raise_HTTPError 401) h)"

section \<open>The graph store\<close>

text \<open>
  The database is an external system; what follows is the meaning of the handful of Cypher
  statements the code sends, on a store of labelled nodes with flat property maps and
  typed directed relationships. A property holds a primitive value or a homogeneous
  list of primitives; a property set to \<open>null\<close> is removed, and reading an absent property
  gives \<open>null\<close> (\<open>None\<close>). Numbers are Cypher integers (floating point is outside the
  model), and the 64-bit range of the store is not modelled.
\<close>

datatype pval = PStr string | PInt int | PBool bool | PTime nat | PList "pval list"

record node =
  nid :: nat
  nlabel :: string
  props :: "string \<rightharpoonup> pval"

record rel =
  rsrc :: nat
  rtype :: string
  rdst :: nat

datatype log_entry =
    Error_msg string
  | Debug_msg string
  | Info_msg string
  | Info_count string int

type_synonym row = "(string \<times> pval option) list"

text \<open>
  The world of the graph layer: the store's contents, a supply of node identities, the
  number of round trips made so far, the store's clock, the run's log, and the two things
  the store decides on its own: whether the k-th round trip fails (\<open>faults\<close>) and how a
  date value truncates to a month identifier (\<open>month_of\<close>, \<open>None\<close> when the expression
  cannot be evaluated).
\<close>

record world =
  nodes :: "node list"
  rels :: "rel list"
  next_id :: nat
  trips :: nat
  clock :: nat
  faults :: "nat \<Rightarrow> bool"
  month_of :: "pval \<Rightarrow> string option"
  logged :: "log_entry list"

text \<open>The values of one property across the store's nodes, in order.\<close>

definition column :: "string \<Rightarrow> world \<Rightarrow> pval option list" where
  "column key w = map (\<lambda>n. props n key) (nodes w)"

definition bind_err :: "'e + 'a \<Rightarrow> ('a \<Rightarrow> 'e + 'b) \<Rightarrow> 'e + 'b" where
  "bind_err x f = (case x of Inl e \<Rightarrow> Inl e | Inr a \<Rightarrow> f a)"

subsection \<open>Parameters as property values\<close>

fun prim_of :: "json \<Rightarrow> pval option" where
  "prim_of (JBool b) = Some (PBool b)"
| "prim_of (JInt i) = Some (PInt i)"
| "prim_of (JStr s) = Some (PStr s)"
| "prim_of JNull = None"
| "prim_of (JList xs) = None"
| "prim_of (JObj kvs) = None"

fun same_kind :: "pval \<Rightarrow> pval \<Rightarrow> bool" where
  "same_kind (PStr a) (PStr b) = True"
| "same_kind (PInt a) (PInt b) = True"
| "same_kind (PBool a) (PBool b) = True"
| "same_kind a b = False"

definition homogeneous :: "pval list \<Rightarrow> bool" where
  "homogeneous ps = (case ps of [] \<Rightarrow> True | p # qs \<Rightarrow> list_all (same_kind p) qs)"

text \<open>A parameter used as a property value: \<open>null\<close>, a storable value, or a type error.\<close>

fun to_prop :: "json \<Rightarrow> neo4j_error + pval option" where
  "to_prop JNull = Inr None"
| "to_prop (JBool b) = Inr (Some (PBool b))"
| "to_prop (JInt i) = Inr (Some (PInt i))"
| "to_prop (JStr s) = Inr (Some (PStr s))"
| "to_prop (JList xs) =
     (case those (map prim_of xs) of
        None \<Rightarrow> Inl CypherTypeError
      | Some ps \<Rightarrow> if homogeneous ps then Inr (Some (PList ps)) else Inl CypherTypeError)"
| "to_prop (JObj kvs) = Inl CypherTypeError"

fun to_props :: "(string \<times> json) list \<Rightarrow> neo4j_error + (string \<times> pval option) list" where
  "to_props [] = Inr []"
| "to_props ((k, v) # rest) =
     bind_err (to_prop v) (\<lambda>pv. bind_err (to_props rest) (\<lambda>r. Inr ((k, pv) # r)))"

text \<open>\<open>SET n.k1 = v1, n.k2 = v2, ...\<close> on one node's properties.\<close>

fun set_props :: "(string \<rightharpoonup> pval) \<Rightarrow> (string \<times> pval option) list \<Rightarrow> (string \<rightharpoonup> pval)" where
  "set_props m [] = m"
| "set_props m ((k, v) # rest) = set_props (m(k := v)) rest"

subsection \<open>Statements\<close>

datatype stmt =
    Merge_set string json "(string \<times> json) list"
  | Unwind_merge string "body list" "string list"
  | Link_by_fk string string string string
  | Link_unsubstituted
  | Link_facts string string
  | Period_metrics string "string list option"

text \<open>
  \<^item> \<open>Merge_set L g sets\<close>: \<open>MERGE (c:L {guid: $guid}) SET c.k = $v, ... RETURN c.guid AS guid\<close>.
  \<^item> \<open>Unwind_merge L batch keys\<close>:
    \<open>UNWIND $batch AS item MERGE (n:L {guid: item.guid}) SET n.k = item.k, ...\<close> for \<open>k\<close> in \<open>keys\<close>.
  \<^item> \<open>Link_by_fk D fk R T\<close>: \<open>MATCH (p:D) WHERE p.fk IS NOT NULL MATCH (c:R {guid: p.fk})
    MERGE (c)-[r:T]->(p) RETURN count(r) as count\<close>.
  \<^item> \<open>Link_unsubstituted\<close>: the text \<open>create_customer_project_relationships\<close> sends,
    \<open>MATCH (p:{Entity2}) ... MERGE (c)-[r:HAS_{ENTITY2}]->(p) ...\<close>. It is an ordinary
    string, so the braces reach the store as written, where a label or a relationship
    type cannot be spelled that way.
  \<^item> \<open>Link_facts F d\<close>: the statement of \<open>link_facts_to_periods\<close>.
  \<^item> \<open>Period_metrics L periods\<close>: the statement of \<open>calculate_period_metrics\<close>, with the
    clause \<open>WHERE p.id IN $periods\<close> when \<open>periods\<close> is given.
\<close>

definition is_node :: "string \<Rightarrow> pval \<Rightarrow> node \<Rightarrow> bool" where
  "is_node L g n = (nlabel n = L \<and> props n ''guid'' = Some g)"

text \<open>\<open>MERGE\<close> on label and key, then \<open>SET\<close> on every node matched or the one created.\<close>

definition merge_set :: "string \<Rightarrow> pval \<Rightarrow> (string \<times> pval option) list \<Rightarrow> world \<Rightarrow> world" where
  "merge_set L g sets w =
     (if filter (is_node L g) (nodes w) = []
      then w\<lparr>nodes := nodes w @
                [\<lparr>nid = next_id w, nlabel = L,
                  props = set_props (Map.empty(''guid'' \<mapsto> g)) sets\<rparr>],
             next_id := Suc (next_id w)\<rparr>
      else w\<lparr>nodes := map (\<lambda>n. if is_node L g n
                                then n\<lparr>props := set_props (props n) sets\<rparr> else n)
                         (nodes w)\<rparr>)"

definition item_get :: "body \<Rightarrow> string \<Rightarrow> json" where
  "item_get item k = (case map_of item k of None \<Rightarrow> JNull | Some v \<Rightarrow> v)"

definition merge_item :: "string \<Rightarrow> string list \<Rightarrow> body \<Rightarrow> world \<Rightarrow> neo4j_error + world" where
  "merge_item L keys item w =
     bind_err (to_prop (item_get item ''guid'')) (\<lambda>g.
       case g of
         None \<Rightarrow> Inl MergeNullKey
       | Some gv \<Rightarrow>
           bind_err (to_props (map (\<lambda>k. (k, item_get item k)) keys)) (\<lambda>sets.
             Inr (merge_set L gv sets w)))"

fun unwind_merge :: "string \<Rightarrow> string list \<Rightarrow> body list \<Rightarrow> world \<Rightarrow> neo4j_error + world" where
  "unwind_merge L keys [] w = Inr w"
| "unwind_merge L keys (item # rest) w =
     bind_err (merge_item L keys item w) (unwind_merge L keys rest)"

text \<open>The rows \<open>(c, p)\<close> of the two \<open>MATCH\<close> clauses of a foreign-key linkage.\<close>

definition fk_matches :: "string \<Rightarrow> string \<Rightarrow> string \<Rightarrow> world \<Rightarrow> (nat \<times> nat) list" where
  "fk_matches D fk R w =
     concat (map (\<lambda>p. case props p fk of
                        None \<Rightarrow> []
                      | Some v \<Rightarrow> map (\<lambda>c. (nid c, nid p)) (filter (is_node R v) (nodes w)))
                 (filter (\<lambda>p. nlabel p = D) (nodes w)))"

text \<open>\<open>MERGE (a)-[:T]->(b)\<close> for every row.\<close>

fun merge_rels :: "string \<Rightarrow> (nat \<times> nat) list \<Rightarrow> rel list \<Rightarrow> rel list" where
  "merge_rels T [] rs = rs"
| "merge_rels T ((a, b) # ms) rs =
     merge_rels T ms
       (if \<lparr>rsrc = a, rtype = T, rdst = b\<rparr> \<in> set rs then rs
        else rs @ [\<lparr>rsrc = a, rtype = T, rdst = b\<rparr>])"

fun fact_rows :: "world \<Rightarrow> string \<Rightarrow> node list \<Rightarrow> (nat \<times> nat) list option" where
  "fact_rows w d [] = Some []"
| "fact_rows w d (f # fs) =
     (case props f d of
        None \<Rightarrow> fact_rows w d fs
      | Some v \<Rightarrow>
          (case month_of w v of
             None \<Rightarrow> None
           | Some month_id \<Rightarrow>
               (case fact_rows w d fs of
                  None \<Rightarrow> None
                | Some r \<Rightarrow>
                    Some (map (\<lambda>m. (nid f, nid m))
                            (filter (\<lambda>m. nlabel m = ''Month'' \<and>
                                         props m ''id'' = Some (PStr month_id)) (nodes w))
                          @ r))))"

subsection \<open>Period metrics\<close>

text \<open>
  The rows of \<open>(a:L)-[:T]->(i)\<close> and of the undirected \<open>(a:L)-[:T]-(i)\<close>, one per
  relationship.
\<close>

definition sources_of :: "world \<Rightarrow> string \<Rightarrow> string \<Rightarrow> nat \<Rightarrow> node list" where
  "sources_of w T L i =
     concat (map (\<lambda>r. if rtype r = T \<and> rdst r = i
                       then filter (\<lambda>n. nid n = rsrc r \<and> nlabel n = L) (nodes w) else [])
                 (rels w))"

definition neighbours :: "world \<Rightarrow> string \<Rightarrow> string \<Rightarrow> nat \<Rightarrow> node list" where
  "neighbours w T L i =
     concat (map (\<lambda>r. if rtype r = T
                       then (if rsrc r = i
                             then filter (\<lambda>n. nid n = rdst r \<and> nlabel n = L) (nodes w)
                             else []) @
                            (if rdst r = i
                             then filter (\<lambda>n. nid n = rsrc r \<and> nlabel n = L) (nodes w)
                             else [])
                       else [])
                 (rels w))"

fun num :: "pval option \<Rightarrow> neo4j_error + int option" where
  "num None = Inr None"
| "num (Some (PInt i)) = Inr (Some i)"
| "num (Some v) = Inl CypherTypeError"

fun bool3 :: "pval option \<Rightarrow> neo4j_error + bool option" where
  "bool3 None = Inr None"
| "bool3 (Some (PBool b)) = Inr (Some b)"
| "bool3 (Some v) = Inl CypherTypeError"

text \<open>\<open>sum(...)\<close>: nulls are skipped, no row gives 0.\<close>

fun agg_sum :: "(neo4j_error + int option) list \<Rightarrow> neo4j_error + int" where
  "agg_sum [] = Inr 0"
| "agg_sum (x # xs) =
     bind_err x (\<lambda>v. bind_err (agg_sum xs) (\<lambda>s. Inr ((case v of None \<Rightarrow> 0 | Some i \<Rightarrow> i) + s)))"

definition quantity :: "node \<Rightarrow> neo4j_error + int option" where
  "quantity wh = num (props wh ''quantity'')"

text \<open>\<open>CASE WHEN wh.isBillable THEN wh.quantity ELSE 0 END\<close>.\<close>

definition billable_part :: "node \<Rightarrow> neo4j_error + int option" where
  "billable_part wh =
     bind_err (bool3 (props wh ''isBillable'')) (\<lambda>b.
       if b = Some True then quantity wh else Inr (Some 0))"

text \<open>\<open>CASE WHEN NOT wh.isBillable THEN wh.quantity ELSE 0 END\<close>.\<close>

definition non_billable_part :: "node \<Rightarrow> neo4j_error + int option" where
  "non_billable_part wh =
     bind_err (bool3 (props wh ''isBillable'')) (\<lambda>b.
       if b = Some False then quantity wh else Inr (Some 0))"

text \<open>\<open>wh.quantity * COALESCE(wh.unitCost, 0)\<close>.\<close>

definition cost_part :: "node \<Rightarrow> neo4j_error + int option" where
  "cost_part wh =
     bind_err (quantity wh) (\<lambda>q. bind_err (num (props wh ''unitCost'')) (\<lambda>u.
       Inr (case q of None \<Rightarrow> None
                    | Some qi \<Rightarrow> Some (qi * (case u of None \<Rightarrow> 0 | Some ui \<Rightarrow> ui)))))"

text \<open>Integer division of the store: it truncates towards zero.\<close>

definition trunc_div :: "int \<Rightarrow> int \<Rightarrow> int" where
  "trunc_div a b = sgn a * sgn b * (\<bar>a\<bar> div \<bar>b\<bar>)"

definition distinct_guids :: "node list \<Rightarrow> int" where
  "distinct_guids ns = int (length (remdups (List.map_filter (\<lambda>n. props n ''guid'') ns)))"

text \<open>The properties the statement sets on one period node, in the order of its \<open>SET\<close>.\<close>

definition metric_bag :: "world \<Rightarrow> node \<Rightarrow> neo4j_error + (string \<times> pval option) list" where
  "metric_bag w p =
     (let whs = sources_of w ''RECORDED_IN'' ''WorkHour'' (nid p);
          invs = sources_of w ''RECORDED_IN'' ''Invoice'' (nid p);
          users = concat (map (\<lambda>wh. neighbours w ''LOGGED_BY'' ''User'' (nid wh)) whs);
          projs = concat (map (\<lambda>wh. neighbours w ''FOR_PROJECT'' ''Project'' (nid wh)) whs)
      in bind_err (agg_sum (map quantity whs)) (\<lambda>totalHours.
         bind_err (agg_sum (map billable_part whs)) (\<lambda>billableHours.
         bind_err (agg_sum (map non_billable_part whs)) (\<lambda>nonBillableHours.
         bind_err (agg_sum (map cost_part whs)) (\<lambda>totalCost.
         bind_err (agg_sum (map (\<lambda>inv. num (props inv ''totalAmount'')) invs)) (\<lambda>totalRevenue.
           Inr [(''totalHours'', Some (PInt totalHours)),
                (''billableHours'', Some (PInt billableHours)),
                (''nonBillableHours'', Some (PInt nonBillableHours)),
                (''totalCost'', Some (PInt totalCost)),
                (''totalRevenue'', Some (PInt totalRevenue)),
                (''margin'', Some (PInt (totalRevenue - totalCost))),
                (''marginPct'',
                   Some (PInt (if totalRevenue > 0
                               then trunc_div (totalRevenue - totalCost) totalRevenue * 100
                               else 0))),
                (''uniqueUsers'', Some (PInt (distinct_guids users))),
                (''uniqueProjects'', Some (PInt (distinct_guids projs))),
                (''lastDenormalizedAt'', Some (PTime (clock w)))]))))))"

definition targeted :: "string \<Rightarrow> string list option \<Rightarrow> node \<Rightarrow> bool" where
  "targeted L periods p =
     (nlabel p = L \<and>
      (case periods of
         None \<Rightarrow> True
       | Some ids \<Rightarrow> (case props p ''id'' of
                        None \<Rightarrow> False
                      | Some v \<Rightarrow> v \<in> set (map PStr ids))))"

fun set_metrics :: "world \<Rightarrow> (node \<Rightarrow> bool) \<Rightarrow> node list \<Rightarrow> neo4j_error + node list" where
  "set_metrics w t [] = Inr []"
| "set_metrics w t (n # ns) =
     (if t n
      then bind_err (metric_bag w n) (\<lambda>bag. bind_err (set_metrics w t ns) (\<lambda>r.
             Inr (n\<lparr>props := set_props (props n) bag\<rparr> # r)))
      else bind_err (set_metrics w t ns) (\<lambda>r. Inr (n # r)))"

subsection \<open>Running a statement\<close>

fun exec_stmt :: "stmt \<Rightarrow> world \<Rightarrow> neo4j_error + row list \<times> world" where
  "exec_stmt (Merge_set L g sets) w =
     bind_err (to_prop g) (\<lambda>gv.
       case gv of
         None \<Rightarrow> Inl MergeNullKey
       | Some k \<Rightarrow>
           bind_err (to_props sets) (\<lambda>sv.
             let w' = merge_set L k sv w
             in Inr (map (\<lambda>n. [(''guid'', props n ''guid'')])
                       (filter (is_node L k) (nodes w')), w')))"
| "exec_stmt (Unwind_merge L batch keys) w =
     bind_err (unwind_merge L keys batch w) (\<lambda>w'. Inr ([], w'))"
| "exec_stmt (Link_by_fk D fk R T) w =
     (let ms = fk_matches D fk R w
      in Inr ([[(''count'', Some (PInt (int (length ms))))]],
              w\<lparr>rels := merge_rels T ms (rels w)\<rparr>))"
| "exec_stmt Link_unsubstituted w = Inl CypherSyntaxError"
| "exec_stmt (Link_facts F d) w =
     (case fact_rows w d (filter (\<lambda>f. nlabel f = F) (nodes w)) of
        None \<Rightarrow> Inl EvaluationError
      | Some ms \<Rightarrow>
          Inr ([[(''count'', Some (PInt (int (length ms))))]],
               w\<lparr>rels := merge_rels ''RECORDED_IN'' ms (rels w)\<rparr>))"
| "exec_stmt (Period_metrics L periods) w =
     bind_err (set_metrics w (targeted L periods) (nodes w)) (\<lambda>ns.
       Inr ([[(''periodCount'',
               Some (PInt (int (length (filter (targeted L periods) (nodes w))))))]],
            w\<lparr>nodes := ns\<rparr>))"

text \<open>
  \<open>session.run(query, params)\<close> with the result consumed: one round trip, which the
  store may fail as a whole; a statement that fails changes nothing.
\<close>

definition session_run :: "stmt \<Rightarrow> world \<Rightarrow> (exn + row list) \<times> world" where
  "session_run q w =
     (let w1 = w\<lparr>trips := Suc (trips w)\<rparr>
      in if faults w (trips w) then (Inl (Neo4jError ServiceUnavailable), w1)
         else case exec_stmt q w1 of
                Inl e \<Rightarrow> (Inl (Neo4jError e), w1)
              | Inr (rows, w2) \<Rightarrow> (Inr rows, w2))"

section \<open>The graph layer\<close>

definition log_add :: "log_entry list \<Rightarrow> world \<Rightarrow> world" where
  "log_add es w = w\<lparr>logged := logged w @ es\<rparr>"

text \<open>\<open>_execute_query\<close>: run and consume; on any exception log it and re-raise.\<close>

definition execute_query :: "stmt \<Rightarrow> world \<Rightarrow> (exn + bool) \<times> world" where
  "execute_query q w =
     (case session_run q w of
        (Inl e, w1) \<Rightarrow>
          (Inl e, log_add [Error_msg ''Query execution failed'', Debug_msg ''Query'',
                           Debug_msg ''Parameters''] w1)
      | (Inr rows, w1) \<Rightarrow> (Inr True, w1))"

text \<open>\<open>d.get(k, default)\<close>.\<close>

definition dict_get :: "body \<Rightarrow> string \<Rightarrow> json \<Rightarrow> json" where
  "dict_get d k dflt = (case map_of d k of None \<Rightarrow> dflt | Some v \<Rightarrow> v)"

text \<open>
  \<open>if data.get(field): guid = data[field].get("guid")\<close>, else \<open>None\<close>: a truthy value
  that is not a dictionary has no \<open>get\<close>.
\<close>

definition nested_guid :: "body \<Rightarrow> string \<Rightarrow> exn + json" where
  "nested_guid data field =
     (let v = dict_get data field JNull
      in if truthy v
         then (case v of JObj kvs \<Rightarrow> Inr (dict_get kvs ''guid'' JNull)
                       | _ \<Rightarrow> Inl AttributeError)
         else Inr JNull)"

definition sync_customer :: "body \<Rightarrow> world \<Rightarrow> (exn + bool) \<times> world" where
  "sync_customer customer_data w =
     (case nested_guid customer_data ''businessUnit'' of
        Inl e \<Rightarrow> (Inl e, w)
      | Inr business_unit_guid \<Rightarrow>
          (case nested_guid customer_data ''accountOwner'' of
             Inl e \<Rightarrow> (Inl e, w)
           | Inr account_owner_guid \<Rightarrow>
               execute_query
                 (Merge_set ''Customer'' (dict_get customer_data ''guid'' JNull)
                    [(''name'', dict_get customer_data ''name'' (JStr '''')),
                     (''number'', dict_get customer_data ''number'' (JStr '''')),
                     (''isActive'', dict_get customer_data ''isActive'' (JBool True)),
                     (''businessUnitGuid'', business_unit_guid),
                     (''accountOwnerGuid'', account_owner_guid),
                     (''lastModified'',
                        dict_get customer_data ''lastModifiedDateTime'' (JStr ''''))])
                 w))"

text \<open>The slices \<open>items[i:i + batch_size]\<close> for \<open>i\<close> in \<open>range(0, len(items), batch_size)\<close>.\<close>

function chunks :: "nat \<Rightarrow> 'a list \<Rightarrow> 'a list list" where
  "chunks n xs = (if n = 0 \<or> xs = [] then [] else take n xs # chunks n (drop n xs))"
  by pat_completeness auto
termination
  by (relation "measure (\<lambda>(n, xs). length xs)") auto

declare chunks.simps [simp del]

text \<open>
  The names assigned in the \<open>SET\<close> clause: the keys of the sample item other than
  \<open>guid\<close>, or \<open>n.guid = item.guid\<close> when there is none.
\<close>

definition set_keys :: "body \<Rightarrow> string list" where
  "set_keys sample_item =
     (let ks = filter (\<lambda>key. key \<noteq> ''guid'') (map fst sample_item)
      in if ks = [] then [''guid''] else ks)"

fun merge_chunks :: "string \<Rightarrow> body list list \<Rightarrow> int \<Rightarrow> world \<Rightarrow> (exn + int) \<times> world" where
  "merge_chunks label [] total_merged w = (Inr total_merged, w)"
| "merge_chunks label (batch # rest) total_merged w =
     (case batch of
        [] \<Rightarrow> merge_chunks label rest total_merged w
      | sample_item # others \<Rightarrow>
          (case session_run (Unwind_merge label batch (set_keys sample_item)) w of
             (Inl e, w1) \<Rightarrow> (Inl e, log_add [Error_msg ''Batch merge failed''] w1)
           | (Inr rows, w1) \<Rightarrow>
               merge_chunks label rest (total_merged + int (length batch)) w1))"

text \<open>
  \<open>batch_merge_nodes\<close>. \<open>range\<close> with step 0 raises \<open>ValueError\<close>; with a negative
  step it is empty.
\<close>

definition batch_merge_nodes ::
  "string \<Rightarrow> body list \<Rightarrow> int \<Rightarrow> world \<Rightarrow> (exn + int) \<times> world" where
  "batch_merge_nodes label items batch_size w =
     (if items = [] then (Inr 0, w)
      else if batch_size = 0 then (Inl ValueError, w)
      else case merge_chunks label
                  (if batch_size < 0 then [] else chunks (nat batch_size) items) 0 w of
             (Inl e, w1) \<Rightarrow> (Inl e, w1)
           | (Inr total_merged, w1) \<Rightarrow>
               (Inr total_merged, log_add [Info_count ''Merged nodes'' total_merged] w1))"

text \<open>
  \<open>record = result.single(); count = record[key] if record else 0\<close>. The statements
  that use it return exactly one row holding an integer count; the other shapes do not
  arise and are given the exception the lookup would raise.
\<close>

definition single_count :: "row list \<Rightarrow> string \<Rightarrow> exn + int" where
  "single_count rows key =
     (case rows of
        [] \<Rightarrow> Inr 0
      | record # others \<Rightarrow>
          (case map_of record key of
             Some (Some (PInt n)) \<Rightarrow> Inr n
           | _ \<Rightarrow> Inl (KeyError key)))"

text \<open>
  \<open>create_customer_project_relationships\<close>, as it stands in the source. The query is
  an ordinary string whose placeholders \<open>{Entity2}\<close> and \<open>{ENTITY2}\<close> go to the store
  unsubstituted. Both log calls are f-strings that evaluate the name \<open>Entity2\<close>, which
  nothing binds: after a successful round trip \<open>logger.info\<close> raises \<open>NameError\<close>
  inside the \<open>try\<close>, and in the handler \<open>logger.error\<close> raises it again before anything
  is logged or returned. So every path ends in \<open>NameError\<close>.
\<close>

definition create_customer_project_relationships :: "world \<Rightarrow> (exn + int) \<times> world" where
  "create_customer_project_relationships w =
     (case session_run Link_unsubstituted w of
        (Inl e, w1) \<Rightarrow> (Inl (NameError ''Entity2''), w1)
      | (Inr rows, w1) \<Rightarrow>
          (case single_count rows ''count'' of
             Inl e \<Rightarrow> (Inl (NameError ''Entity2''), w1)
           | Inr count \<Rightarrow> (Inl (NameError ''Entity2''), w1)))"

text \<open>
  \<open>create_customer_contact_relationships\<close>, one of the three sibling methods written
  with concrete names. Every exception inside the \<open>try\<close> is caught, logged, and answered
  with 0.
\<close>

definition create_customer_contact_relationships :: "world \<Rightarrow> (exn + int) \<times> world" where
  "create_customer_contact_relationships w =
     (case session_run
             (Link_by_fk ''ContactPerson'' ''customerGuid'' ''Customer'' ''HAS_CONTACT'') w of
        (Inl e, w1) \<Rightarrow> (Inr 0, log_add [Error_msg ''Failed to create relationships''] w1)
      | (Inr rows, w1) \<Rightarrow>
          (case single_count rows ''count'' of
             Inl e \<Rightarrow> (Inr 0, log_add [Error_msg ''Failed to create relationships''] w1)
           | Inr count \<Rightarrow>
               (Inr count, log_add [Info_count ''Created relationships'' count] w1)))"

definition link_facts_to_periods ::
  "string \<Rightarrow> string \<Rightarrow> world \<Rightarrow> (exn + int) \<times> world" where
  "link_facts_to_periods fact_entity date_property w =
     (case session_run (Link_facts fact_entity date_property) w of
        (Inl e, w1) \<Rightarrow> (Inr 0, log_add [Error_msg ''Failed to link to periods''] w1)
      | (Inr rows, w1) \<Rightarrow>
          (case single_count rows ''count'' of
             Inl e \<Rightarrow> (Inr 0, log_add [Error_msg ''Failed to link to periods''] w1)
           | Inr count \<Rightarrow>
               (Inr count, log_add [Info_count ''Linked entities to Month periods'' count] w1)))"

text \<open>\<open>str.capitalize()\<close> on ASCII letters.\<close>

definition upper_char :: "char \<Rightarrow> char" where
  "upper_char c =
     (let n = (of_char c :: nat) in if 97 \<le> n \<and> n \<le> 122 then char_of (n - 32) else c)"

definition lower_char :: "char \<Rightarrow> char" where
  "lower_char c =
     (let n = (of_char c :: nat) in if 65 \<le> n \<and> n \<le> 90 then char_of (n + 32) else c)"

definition capitalize :: "string \<Rightarrow> string" where
  "capitalize s = (case s of [] \<Rightarrow> [] | c # cs \<Rightarrow> upper_char c # map lower_char cs)"

text \<open>
  \<open>calculate_period_metrics\<close>. An explicit empty list returns at once; otherwise the
  \<open>WHERE\<close> clause and its parameter are present exactly when \<open>periods\<close> is truthy.
\<close>

definition where_periods :: "string list option \<Rightarrow> string list option" where
  "where_periods periods =
     (case periods of None \<Rightarrow> None | Some ids \<Rightarrow> if ids = [] then None else Some ids)"

definition calculate_period_metrics ::
  "string \<Rightarrow> string list option \<Rightarrow> world \<Rightarrow> (exn + int) \<times> world" where
  "calculate_period_metrics period_type periods w =
     (if periods = Some [] then (Inr 0, w)
      else case session_run
                  (Period_metrics (capitalize period_type) (where_periods periods)) w of
             (Inl e, w1) \<Rightarrow>
               (Inr 0, log_add [Error_msg ''Failed to calculate metrics'', Debug_msg ''Query'',
                               Debug_msg ''Params''] w1)
           | (Inr rows, w1) \<Rightarrow>
               (case single_count rows ''periodCount'' of
                  Inl e \<Rightarrow>
                    (Inr 0, log_add [Error_msg ''Failed to calculate metrics'',
                                    Debug_msg ''Query'', Debug_msg ''Params''] w1)
                | Inr count \<Rightarrow>
                    (Inr count, log_add [Info_count ''Denormalized metrics'' count] w1)))"

section \<open>The orchestrator\<close>

datatype stage =
    AUTH | INDEX | REFERENCE | CORE_ENTITIES | TRANSACTIONAL | RELATIONSHIPS
  | METRICS | ANALYTICS | SUMMARY

record sync_config =
  enable_metrics :: bool
  enable_analytics :: bool

text \<open>
  The orchestrator's state: its API client, the stages entered so far (each stage method
  logs its banner and, in the template, does nothing else), and whether the store
  connection has been closed.
\<close>

record orch_state =
  api :: api_state
  stages :: "stage list"
  closed :: bool

definition enter :: "stage \<Rightarrow> orch_state \<Rightarrow> orch_state" where
  "enter g s = s\<lparr>stages := stages s @ [g]\<rparr>"

text \<open>\<open>_authenticate\<close>: \<open>False\<close> when the client's \<open>authenticate\<close> returns \<open>False\<close>.\<close>

definition orch_authenticate :: "env \<Rightarrow> orch_state \<Rightarrow> (exn + bool) \<times> orch_state" where
  "orch_authenticate E s =
     (case authenticate E (api s) of
        (Inl e, a) \<Rightarrow> (Inl e, (enter AUTH s)\<lparr>api := a\<rparr>)
      | (Inr ok, a) \<Rightarrow> (Inr ok, (enter AUTH s)\<lparr>api := a\<rparr>))"

definition create_indexes :: "orch_state \<Rightarrow> orch_state" where
  "create_indexes s = enter INDEX s"

definition sync_reference_data :: "orch_state \<Rightarrow> orch_state" where
  "sync_reference_data s = enter REFERENCE s"

definition sync_core_entities :: "orch_state \<Rightarrow> orch_state" where
  "sync_core_entities s = enter CORE_ENTITIES s"

definition sync_transactional_data :: "orch_state \<Rightarrow> orch_state" where
  "sync_transactional_data s = enter TRANSACTIONAL s"

definition create_relationships :: "orch_state \<Rightarrow> orch_state" where
  "create_relationships s = enter RELATIONSHIPS s"

definition calculate_metrics :: "orch_state \<Rightarrow> orch_state" where
  "calculate_metrics s = enter METRICS s"

definition create_analytics :: "orch_state \<Rightarrow> orch_state" where
  "create_analytics s = enter ANALYTICS s"

definition print_summary :: "orch_state \<Rightarrow> orch_state" where
  "print_summary s = enter SUMMARY s"

definition close_connections :: "orch_state \<Rightarrow> orch_state" where
  "close_connections s = s\<lparr>closed := True\<rparr>"

text \<open>
  \<open>run_full_sync\<close>: the \<open>try\<close> body, with \<open>except Exception: return False\<close> for an
  exception escaping \<open>_authenticate\<close> and \<open>finally: self._close_connections()\<close> on every
  path.
\<close>

definition run_full_sync ::
  "env \<Rightarrow> sync_config \<Rightarrow> bool \<Rightarrow> bool \<Rightarrow> orch_state \<Rightarrow> bool \<times> orch_state" where
  "run_full_sync E sc create_indexes_flag dry_run s =
     (case orch_authenticate E s of
        (Inl e, s1) \<Rightarrow> (False, close_connections s1)
      | (Inr ok, s1) \<Rightarrow>
          if \<not> ok then (False, close_connections s1)
          else
            let s2 = (if create_indexes_flag \<and> \<not> dry_run then create_indexes s1 else s1);
                s3 = (if \<not> dry_run then sync_reference_data s2 else s2);
                s4 = (if \<not> dry_run then sync_core_entities s3 else s3);
                s5 = (if \<not> dry_run then sync_transactional_data s4 else s4);
                s6 = (if \<not> dry_run then create_relationships s5 else s5);
                s7 = (if enable_metrics sc \<and> \<not> dry_run then calculate_metrics s6 else s6);
                s8 = (if enable_analytics sc \<and> \<not> dry_run then create_analytics s7 else s7);
                s9 = print_summary s8
            in (True, close_connections s9))"

section \<open>Scenarios\<close>

text \<open>
  Concrete remote sides and configurations, in the manner of the repository's tests: a
  server that answers the k-th GET with the k-th entry of a script (and fails to connect
  once the script is used up), a token endpoint that grants or refuses.
\<close>

definition scripted :: "http_outcome list \<Rightarrow> api_state \<Rightarrow> string \<Rightarrow> params \<Rightarrow> http_outcome" where
  "scripted outs st url ps =
     (if length (history st) < length outs then outs ! length (history st)
      else Raise_RequestException)"

definition st0 :: api_state where
  "st0 = \<lparr>token = None, history = [], posts = 0, sleeps = []\<rparr>"

definition cfg_of :: "int \<Rightarrow> config" where
  "cfg_of n = \<lparr>api_url = ''https://api.example.com/v1'', max_retries = n\<rparr>"

definition auth_ok :: "api_state \<Rightarrow> http_outcome" where
  "auth_ok st = Ok_response [(''access_token'', JStr ''secret'')] None"

definition auth_denied :: "api_state \<Rightarrow> http_outcome" where
  "auth_denied st = Raise_HTTPError 401"

definition unreachable :: "api_state \<Rightarrow> string \<Rightarrow> params \<Rightarrow> http_outcome" where
  "unreachable st url ps = Raise_RequestException"

definition ok_empty :: http_outcome where
  "ok_empty = Ok_response [(''items'', JList [])] None"

definition page_of :: "int list \<Rightarrow> string option \<Rightarrow> http_outcome" where
  "page_of ids cursor = Ok_response [(''items'', JList (map JInt ids))] cursor"

text \<open>An empty store that never fails, and the records of the customer scenario.\<close>

definition w0 :: world where
  "w0 = \<lparr>nodes = [], rels = [], next_id = 0, trips = 0, clock = 0,
         faults = (\<lambda>k. False), month_of = (\<lambda>v. None), logged = []\<rparr>"

definition customers_with :: "string \<Rightarrow> world \<Rightarrow> node list" where
  "customers_with g w = filter (is_node ''Customer'' (PStr g)) (nodes w)"

definition acme_owner :: body where
  "acme_owner = [(''guid'', JStr ''c-1''), (''name'', JStr ''Acme''),
                 (''owner'', JObj [(''guid'', JStr ''u-9'')])]"

definition acme_account_owner :: body where
  "acme_account_owner = [(''guid'', JStr ''c-1''), (''name'', JStr ''Acme''),
                         (''accountOwner'', JObj [(''guid'', JStr ''u-9'')])]"

definition acme_corp :: body where
  "acme_corp = [(''guid'', JStr ''c-1''), (''name'', JStr ''Acme Corp'')]"

definition s0 :: orch_state where
  "s0 = \<lparr>api = st0, stages = [], closed = False\<rparr>"

text \<open>The same store, unavailable at every round trip.\<close>

definition w_down :: world where
  "w_down = w0\<lparr>faults := (\<lambda>k. True)\<rparr>"

text \<open>
  A store holding the month 2025-01 and one billable work-hour fact of quantity 5 recorded
  in it.
\<close>

definition w_month :: world where
  "w_month =
     w0\<lparr>nodes := [\<lparr>nid = 0, nlabel = ''Month'', props = [''id'' \<mapsto> PStr ''2025-01'']\<rparr>,
                   \<lparr>nid = 1, nlabel = ''WorkHour'',
                    props = [''quantity'' \<mapsto> PInt 5, ''isBillable'' \<mapsto> PBool True]\<rparr>],
         rels := [\<lparr>rsrc = 1, rtype = ''RECORDED_IN'', rdst = 0\<rparr>],
         next_id := 2\<rparr>"

text \<open>
  Stores holding one project, and one contact person, whose \<open>customerGuid\<close> names a
  customer that does not exist.
\<close>

definition w_dangling :: world where
  "w_dangling =
     w0\<lparr>nodes := [\<lparr>nid = 0, nlabel = ''Project'',
                    props = [''guid'' \<mapsto> PStr ''p-1'', ''customerGuid'' \<mapsto> PStr ''c-404'']\<rparr>],
         next_id := 1\<rparr>"

definition w_dangling_contact :: world where
  "w_dangling_contact =
     w0\<lparr>nodes := [\<lparr>nid = 0, nlabel = ''ContactPerson'',
                    props = [''guid'' \<mapsto> PStr ''cp-1'', ''customerGuid'' \<mapsto> PStr ''c-404'']\<rparr>],
         next_id := 1\<rparr>"

text \<open>A store whose second round trip fails, and three items for chunks of two.\<close>

definition w_flaky :: world where
  "w_flaky = w0\<lparr>faults := (\<lambda>k. k = 1)\<rparr>"

definition three_items :: "body list" where
  "three_items = [[(''guid'', JStr ''a'')], [(''guid'', JStr ''b'')], [(''guid'', JStr ''c'')]]"

text \<open>Two items of one chunk, the second with a key the first does not have.\<close>

definition two_items :: "body list" where
  "two_items = [[(''guid'', JStr ''a''), (''name'', JStr ''A'')],
                [(''guid'', JStr ''b''), (''name'', JStr ''B''), (''extra'', JInt 1)]]"

section \<open>Retry and re-authentication\<close>

lemma authenticate_frame:
  "authenticate E st = (x, st2) \<Longrightarrow>
     history st2 = history st \<and> posts st2 = Suc (posts st) \<and> sleeps st2 = sleeps st"
  by (auto simp: authenticate_def Let_def split: http_outcome.splits option.splits)

lemma retry_loop_single_step:
  assumes "history st' = history st @ [e]" and "posts st' = posts st + count_401 [e]"
  shows "\<exists>new. history st' = history st @ new \<and> length new \<le> length (a # atts) \<and>
               posts st' = posts st + count_401 new"
proof -
  have "length [e] \<le> length (a # atts)" by simp
  with assms show ?thesis by blast
qed

lemma retry_loop_reauth_count:
  "retry_loop E cfg url ps atts st = (r, st') \<Longrightarrow>
     \<exists>new. history st' = history st @ new \<and> length new \<le> length atts \<and>
           posts st' = posts st + count_401 new"
proof (induction atts arbitrary: st)
  case Nil
  then show ?case by (simp add: count_401_def)
next
  case (Cons a atts)
  let ?out = "server E st url ps"
  let ?st1 = "st\<lparr>history := history st @ [(ps, ?out)]\<rparr>"
  have continue: ?case
    if run: "retry_loop E cfg url ps atts st2 = (r, st')"
      and h2: "history st2 = history st @ [(ps, ?out)]"
      and p2: "posts st2 = posts st + count_401 [(ps, ?out)]" for st2
  proof -
    from Cons.IH[OF run] obtain new where
      n: "history st' = history st2 @ new" "length new \<le> length atts"
         "posts st' = posts st2 + count_401 new" by blast
    have "history st' = history st @ ((ps, ?out) # new)" using n h2 by simp
    moreover have "posts st' = posts st + count_401 ((ps, ?out) # new)"
      using n p2 by (simp add: count_401_def)
    moreover have "length ((ps, ?out) # new) \<le> length (a # atts)" using n by simp
    ultimately show ?thesis by blast
  qed
  show ?case
  proof (cases ?out)
    case (Ok_response d t)
    with Cons.prems have "st' = ?st1" by (simp add: Let_def)
    then show ?thesis
      using Ok_response by (intro retry_loop_single_step[where e = "(ps, ?out)"]) (simp_all add: count_401_def)
  next
    case (Raise_HTTPError code)
    show ?thesis
    proof (cases "code = 401")
      case True
      obtain x st2 where a: "authenticate E ?st1 = (x, st2)" by (cases "authenticate E ?st1")
      from authenticate_frame[OF a] Raise_HTTPError True
      have f: "history st2 = history st @ [(ps, ?out)]"
        "posts st2 = posts st + count_401 [(ps, ?out)]" by (simp_all add: count_401_def)
      show ?thesis
      proof (cases "x = Inr True")
        case True
        with Cons.prems Raise_HTTPError \<open>code = 401\<close> a
        have "retry_loop E cfg url ps atts st2 = (r, st')" by (simp add: Let_def)
        then show ?thesis by (rule continue) (use f in simp_all)
      next
        case False
        with Cons.prems Raise_HTTPError \<open>code = 401\<close> a
        have "st' = st2" by (cases x) (auto simp: Let_def split: if_splits)
        then show ?thesis using f by (intro retry_loop_single_step[where e = "(ps, ?out)"]) simp_all
      qed
    next
      case False
      show ?thesis
      proof (cases "code = 429 \<or> (500 \<le> code \<and> code < 600)")
        case True
        with Cons.prems Raise_HTTPError False
        have "retry_loop E cfg url ps atts (sleep (2 ^ a) ?st1) = (r, st')"
          by (auto simp: Let_def)
        then show ?thesis
          by (rule continue)
            (use Raise_HTTPError False in \<open>simp_all add: sleep_def count_401_def\<close>)
      next
        case b: False
        with Cons.prems Raise_HTTPError False have "st' = ?st1" by (auto simp: Let_def)
        then show ?thesis using Raise_HTTPError False
          by (intro retry_loop_single_step[where e = "(ps, ?out)"]) (simp_all add: count_401_def)
      qed
    qed
  next
    case Raise_RequestException
    show ?thesis
    proof (cases "int a < max_retries cfg - 1")
      case True
      with Cons.prems Raise_RequestException
      have "retry_loop E cfg url ps atts (sleep (2 ^ a) ?st1) = (r, st')"
        by (auto simp: Let_def)
      then show ?thesis
        by (rule continue)
          (use Raise_RequestException in \<open>simp_all add: sleep_def count_401_def\<close>)
    next
      case False
      with Cons.prems Raise_RequestException have "st' = ?st1" by (auto simp: Let_def)
      then show ?thesis using Raise_RequestException
        by (intro retry_loop_single_step[where e = "(ps, ?out)"]) (simp_all add: count_401_def)
    qed
  qed
qed

lemma retry_loop_always_500:
  assumes "\<forall>st ps. server E st url ps = Raise_HTTPError 500"
  shows "retry_loop E cfg url ps atts st =
     (Inl (Exception_max_retries (max_retries cfg) url),
      st\<lparr>history := history st @ replicate (length atts) (ps, Raise_HTTPError 500),
         sleeps := sleeps st @ map (\<lambda>a. 2 ^ a) atts\<rparr>)"
  using assms
  by (induction atts arbitrary: st) (simp_all add: sleep_def replicate_app_Cons_same Let_def)

lemma retry_loop_always_down:
  assumes "\<forall>st ps. server E st url ps = Raise_RequestException"
    and "int n = max_retries cfg" and "k < n"
  shows "retry_loop E cfg url ps [k ..< n] st =
     (Inl RequestException,
      st\<lparr>history := history st @ replicate (n - k) (ps, Raise_RequestException),
         sleeps := sleeps st @ map (\<lambda>a. 2 ^ a) [k ..< n - 1]\<rparr>)"
  using assms
proof (induction "n - k" arbitrary: k st)
  case 0
  then show ?case by simp
next
  case (Suc d)
  then have upt: "[k ..< n] = k # [Suc k ..< n]" by (simp add: upt_conv_Cons)
  show ?case
  proof (cases "Suc k < n")
    case True
    then have lt: "int k < max_retries cfg - 1" using Suc.prems by linarith
    have d: "d = n - Suc k" using Suc.hyps by simp
    have ih: "retry_loop E cfg url ps [Suc k ..< n] st' =
     (Inl RequestException,
      st'\<lparr>history := history st' @ replicate (n - Suc k) (ps, Raise_RequestException),
         sleeps := sleeps st' @ map (\<lambda>a. 2 ^ a) [Suc k ..< n - 1]\<rparr>)" for st'
      using Suc.hyps(1)[OF d Suc.prems(1) Suc.prems(2)] True by simp
    have u2: "[k ..< n - Suc 0] = k # [Suc k ..< n - Suc 0]"
      using True by (simp add: upt_conv_Cons)
    have r: "replicate (n - k) x = x # replicate (n - Suc k) x"
      for x :: "params \<times> http_outcome"
      using True by (metis Suc.hyps(2) d replicate_Suc)
    show ?thesis
      using Suc.prems(1) lt by (simp add: upt ih u2 r sleep_def Let_def)
  next
    case False
    then have e: "n = Suc k" using Suc.prems by linarith
    then have lt: "\<not> int k < max_retries cfg - 1" using Suc.prems by linarith
    show ?thesis using Suc.prems(1) lt e by (simp add: Let_def)
  qed
qed

lemma make_single_request_first_ok:
  assumes "1 \<le> max_retries cfg" and "server E st url pp = Ok_response d t"
  shows "make_single_request E cfg url pp st =
           (Inr (d, t), st\<lparr>history := history st @ [(pp, Ok_response d t)]\<rparr>)"
proof -
  from assms(1) have "[0 ..< nat (max_retries cfg)] = 0 # [Suc 0 ..< nat (max_retries cfg)]"
    by (simp add: upt_conv_Cons)
  then show ?thesis using assms(2) by (simp add: make_single_request_def Let_def)
qed

text \<open>
  C1 (as amended). Re-authentication is per 401 response, not per request: during one
  \<open>_make_single_request\<close> every 401 response triggers exactly one call of
  \<open>authenticate\<close>, so the number of token POSTs equals the number of 401 responses
  received (at most \<open>max_retries\<close>, since each retry uses up one attempt). At any
  attempt, a 401 followed by a failed re-authentication raises the 401 error at once, with
  no further GET. With at least two attempts allowed, a 401 followed by a successful
  re-authentication and a successful response returns that response after exactly two GETs
  and one token POST.
\<close>

theorem reauth_on_every_401:
  "(make_single_request E cfg url ps st = (r, st') \<longrightarrow>
      (\<exists>new. history st' = history st @ new \<and>
             int (length new) \<le> max 0 (max_retries cfg) \<and>
             posts st' = posts st + count_401 new)) \<and>
   (server E st url ps = Raise_HTTPError 401 \<and>
    authenticate E (st\<lparr>history := history st @ [(ps, Raise_HTTPError 401)]\<rparr>)
      = (Inr False, sta) \<longrightarrow>
      retry_loop E cfg url ps (a # rest) st = (Inl (HTTPError 401), sta) \<and>
      history sta = history st @ [(ps, Raise_HTTPError 401)] \<and>
      posts sta = Suc (posts st)) \<and>
   (2 \<le> max_retries cfg \<and> server E st url ps = Raise_HTTPError 401 \<and>
    authenticate E (st\<lparr>history := history st @ [(ps, Raise_HTTPError 401)]\<rparr>)
      = (Inr True, stb) \<and>
    server E stb url ps = Ok_response data tok \<longrightarrow>
      make_single_request E cfg url ps st =
        (Inr (data, tok),
         stb\<lparr>history := history st @
                 [(ps, Raise_HTTPError 401), (ps, Ok_response data tok)]\<rparr>) \<and>
      posts stb = Suc (posts st))"
proof (intro conjI impI)
  assume run: "make_single_request E cfg url ps st = (r, st')"
  then obtain new where
    n: "history st' = history st @ new" "length new \<le> length [0 ..< nat (max_retries cfg)]"
       "posts st' = posts st + count_401 new"
    unfolding make_single_request_def by (blast dest: retry_loop_reauth_count)
  from n(2) have "int (length new) \<le> max 0 (max_retries cfg)" by simp
  with n show "\<exists>new. history st' = history st @ new \<and>
             int (length new) \<le> max 0 (max_retries cfg) \<and>
             posts st' = posts st + count_401 new" by blast
next
  assume h: "server E st url ps = Raise_HTTPError 401 \<and>
    authenticate E (st\<lparr>history := history st @ [(ps, Raise_HTTPError 401)]\<rparr>)
      = (Inr False, sta)"
  then show "retry_loop E cfg url ps (a # rest) st = (Inl (HTTPError 401), sta)"
    by (simp add: Let_def)
  from h authenticate_frame[of E _ "Inr False" sta]
  show "history sta = history st @ [(ps, Raise_HTTPError 401)]" "posts sta = Suc (posts st)"
    by auto
next
  assume h: "2 \<le> max_retries cfg \<and> server E st url ps = Raise_HTTPError 401 \<and>
    authenticate E (st\<lparr>history := history st @ [(ps, Raise_HTTPError 401)]\<rparr>)
      = (Inr True, stb) \<and>
    server E stb url ps = Ok_response data tok"
  then have f: "history stb = history st @ [(ps, Raise_HTTPError 401)]"
    "posts stb = Suc (posts st)"
    using authenticate_frame[of E _ "Inr True" stb] by auto
  from h have "[0 ..< nat (max_retries cfg)] =
      0 # Suc 0 # [Suc (Suc 0) ..< nat (max_retries cfg)]"
    by (simp add: upt_conv_Cons)
  with h f show "make_single_request E cfg url ps st =
        (Inr (data, tok),
         stb\<lparr>history := history st @
                 [(ps, Raise_HTTPError 401), (ps, Ok_response data tok)]\<rparr>)"
    by (simp add: make_single_request_def Let_def)
  show "posts stb = Suc (posts st)" by (rule f)
qed

theorem reauth_on_every_401_witness:
  "make_single_request
     \<lparr>server = scripted [Raise_HTTPError 401, ok_empty], auth_server = auth_ok\<rparr>
     (cfg_of 3) ''u'' Map.empty st0 =
     (Inr ([(''items'', JList [])], None),
      \<lparr>token = Some (JStr ''secret''),
       history = [(Map.empty, Raise_HTTPError 401), (Map.empty, ok_empty)],
       posts = 1, sleeps = []\<rparr>) \<and>
   retry_loop
     \<lparr>server = scripted [Raise_HTTPError 401, ok_empty], auth_server = auth_denied\<rparr>
     (cfg_of 3) ''u'' Map.empty [0, 1, 2] st0 =
     (Inl (HTTPError 401),
      \<lparr>token = None, history = [(Map.empty, Raise_HTTPError 401)],
       posts = 1, sleeps = []\<rparr>)"
  using
    reauth_on_every_401 [where
      E = "\<lparr>server = scripted [Raise_HTTPError 401, ok_empty], auth_server = auth_ok\<rparr>"
      and cfg = "cfg_of 3" and url = "''u''" and ps = Map.empty and st = st0
      and stb = "\<lparr>token = Some (JStr ''secret''),
                  history = [(Map.empty, Raise_HTTPError 401)], posts = 1, sleeps = []\<rparr>"
      and data = "[(''items'', JList [])]" and tok = None
      and r = "Inr ([(''items'', JList [])], None)"
      and st' = "\<lparr>token = Some (JStr ''secret''),
                  history = [(Map.empty, Raise_HTTPError 401), (Map.empty, ok_empty)],
                  posts = 1, sleeps = []\<rparr>"]
    reauth_on_every_401 [where
      E = "\<lparr>server = scripted [Raise_HTTPError 401, ok_empty], auth_server = auth_denied\<rparr>"
      and cfg = "cfg_of 3" and url = "''u''" and ps = Map.empty and st = st0
      and sta = "\<lparr>token = None,
                  history = [(Map.empty, Raise_HTTPError 401)], posts = 1, sleeps = []\<rparr>"
      and a = 0 and rest = "[1, 2]"]
  by (simp add: scripted_def st0_def cfg_of_def auth_ok_def auth_denied_def ok_empty_def
        authenticate_def Let_def)

theorem reauth_twice_counterexample:
  "posts (snd (make_single_request
       \<lparr>server = scripted [Raise_HTTPError 401, Raise_HTTPError 401, ok_empty],
        auth_server = auth_ok\<rparr> (cfg_of 3) ''u'' Map.empty st0)) = 2 \<and>
   fst (make_single_request
       \<lparr>server = scripted [Raise_HTTPError 401, ok_empty], auth_server = auth_ok\<rparr>
       (cfg_of 1) ''u'' Map.empty st0) = Inl (Exception_max_retries 1 ''u'')"
  by (simp add: make_single_request_def cfg_of_def scripted_def st0_def auth_ok_def
        authenticate_def ok_empty_def Let_def upt_rec)

text \<open>
  C2. With \<open>max_retries = N \<ge> 1\<close> and a server that answers every GET with HTTP 500,
  \<open>_make_single_request\<close> issues exactly N GETs (sleeping \<open>2^attempt\<close> after each) and
  then raises the generic "Max retries (N) exceeded" exception, which is not a
  \<open>RequestException\<close> (the class of transport and HTTP errors).
\<close>

theorem always_500_exhausts_retries:
  assumes "1 \<le> max_retries cfg"
    and "\<forall>st ps. server E st url ps = Raise_HTTPError 500"
  shows "make_single_request E cfg url ps st =
           (Inl (Exception_max_retries (max_retries cfg) url),
            st\<lparr>history := history st @
                   replicate (nat (max_retries cfg)) (ps, Raise_HTTPError 500),
               sleeps := sleeps st @ map (\<lambda>a. 2 ^ a) [0 ..< nat (max_retries cfg)]\<rparr>) \<and>
         \<not> is_RequestException (Exception_max_retries (max_retries cfg) url)"
  using retry_loop_always_500[OF assms(2)] by (simp add: make_single_request_def)

theorem always_500_exhausts_retries_witness:
  "make_single_request
     \<lparr>server = (\<lambda>st url ps. Raise_HTTPError 500), auth_server = auth_ok\<rparr>
     (cfg_of 3) ''u'' Map.empty st0 =
     (Inl (Exception_max_retries 3 ''u''),
      \<lparr>token = None,
       history = [(Map.empty, Raise_HTTPError 500), (Map.empty, Raise_HTTPError 500),
                  (Map.empty, Raise_HTTPError 500)],
       posts = 0, sleeps = [1, 2, 4]\<rparr>)"
  using always_500_exhausts_retries [of "cfg_of 3"
      "\<lparr>server = (\<lambda>st url ps. Raise_HTTPError 500), auth_server = auth_ok\<rparr>"
      "''u''" Map.empty st0]
  by (simp add: cfg_of_def st0_def upt_rec numeral_3_eq_3)

text \<open>
  C3 (as amended). With \<open>max_retries = N \<ge> 1\<close> and every attempt failing with a transport
  error, \<open>_make_single_request\<close> issues exactly N GETs, sleeps after each but the last,
  and on the last attempt re-raises the transport error itself; the "Max retries
  exceeded" exception is not reached on this path.
\<close>

theorem always_down_reraises_transport_error:
  assumes "1 \<le> max_retries cfg"
    and "\<forall>st ps. server E st url ps = Raise_RequestException"
  shows "make_single_request E cfg url ps st =
           (Inl RequestException,
            st\<lparr>history := history st @
                   replicate (nat (max_retries cfg)) (ps, Raise_RequestException),
               sleeps := sleeps st @
                   map (\<lambda>a. 2 ^ a) [0 ..< nat (max_retries cfg) - 1]\<rparr>)"
proof -
  from assms(1) have "int (nat (max_retries cfg)) = max_retries cfg" "0 < nat (max_retries cfg)"
    by simp_all
  from retry_loop_always_down[OF assms(2) this, of ps st]
  show ?thesis by (simp add: make_single_request_def)
qed

theorem always_down_reraises_transport_error_witness:
  "make_single_request
     \<lparr>server = (\<lambda>st url ps. Raise_RequestException), auth_server = auth_ok\<rparr>
     (cfg_of 3) ''u'' Map.empty st0 =
     (Inl RequestException,
      \<lparr>token = None,
       history = [(Map.empty, Raise_RequestException), (Map.empty, Raise_RequestException),
                  (Map.empty, Raise_RequestException)],
       posts = 0, sleeps = [1, 2]\<rparr>)"
  using always_down_reraises_transport_error [of "cfg_of 3"
      "\<lparr>server = (\<lambda>st url ps. Raise_RequestException), auth_server = auth_ok\<rparr>"
      "''u''" Map.empty st0]
  by (simp add: cfg_of_def st0_def upt_rec numeral_3_eq_3)

theorem always_down_counterexample:
  "fst (make_single_request \<lparr>server = unreachable, auth_server = auth_ok\<rparr>
          (cfg_of 3) ''u'' Map.empty st0) = Inl RequestException \<and>
   Inl RequestException \<noteq>
     (Inl (Exception_max_retries 3 ''u'') :: exn + body \<times> string option)"
  by (simp add: make_single_request_def cfg_of_def st0_def unreachable_def Let_def upt_rec)

section \<open>Pagination\<close>

lemma request_loop_pages:
  assumes "1 \<le> max_retries cfg" and "pages \<noteq> []"
    and "\<forall>k<length pages. \<forall>st' ps'. length (history st') = length (history st) + k \<longrightarrow>
           (\<exists>d. server E st' url ps' = Ok_response d (snd (pages ! k)) \<and>
                map_of d ''items'' = Some (JList (fst (pages ! k))))"
    and "\<forall>p\<in>set (butlast pages). truthy_token (snd p)"
    and "\<not> truthy_token (snd (last pages))"
  shows "\<exists>st'. request_loop E cfg url ps True acc tok0 pn st =
                 Some (Inr (acc @ concat (map fst pages)), st') \<and>
               map fst (history st') =
                 map fst (history st) @
                 map (paginated_params ps True) (tok0 # map snd (butlast pages)) \<and>
               posts st' = posts st \<and> sleeps st' = sleeps st \<and> token st' = token st"
  using assms(2-)
proof (induction pages arbitrary: acc tok0 pn st)
  case Nil
  then show ?case by simp
next
  case (Cons p rest)
  obtain its t where p: "p = (its, t)" by (cases p)
  let ?pp = "paginated_params ps True tok0"
  from Cons.prems(2) p obtain d where
    d: "server E st url ?pp = Ok_response d t" "map_of d ''items'' = Some (JList its)"
    by fastforce
  let ?st1 = "st\<lparr>history := history st @ [(?pp, Ok_response d t)]\<rparr>"
  have msr: "make_single_request E cfg url ?pp st = (Inr (d, t), ?st1)"
    using make_single_request_first_ok[OF assms(1) d(1)] .
  have io: "items_of d = Inr its" using d(2) by (simp add: items_of_def)
  show ?case
  proof (cases "rest = []")
    case True
    with Cons.prems(4) p have nt: "\<not> truthy_token t" by simp
    have "request_loop E cfg url ps True acc tok0 pn st = Some (Inr (acc @ its), ?st1)"
      by (subst request_loop.simps) (simp add: msr io nt)
    then show ?thesis using True p by simp
  next
    case False
    with Cons.prems(3) p have tt: "truthy_token t" by simp
    have step: "request_loop E cfg url ps True acc tok0 pn st =
                request_loop E cfg url ps True (acc @ its) t (pn + 1) ?st1"
      by (subst request_loop.simps) (simp add: msr io tt)
    have h2: "\<forall>k<length rest. \<forall>st' ps'.
           length (history st') = length (history ?st1) + k \<longrightarrow>
           (\<exists>d. server E st' url ps' = Ok_response d (snd (rest ! k)) \<and>
                map_of d ''items'' = Some (JList (fst (rest ! k))))"
    proof (intro allI impI)
      fix k and st' :: api_state and ps' :: params
      assume k: "k < length rest" and l: "length (history st') = length (history ?st1) + k"
      then have "Suc k < length (p # rest)"
        "length (history st') = length (history st) + Suc k"
        by simp_all
      with Cons.prems(2)
      have "\<exists>d. server E st' url ps' = Ok_response d (snd ((p # rest) ! Suc k)) \<and>
                map_of d ''items'' = Some (JList (fst ((p # rest) ! Suc k)))" by blast
      then show "\<exists>d. server E st' url ps' = Ok_response d (snd (rest ! k)) \<and>
                map_of d ''items'' = Some (JList (fst (rest ! k)))" by simp
    qed
    have h3: "\<forall>p\<in>set (butlast rest). truthy_token (snd p)"
      using Cons.prems(3) False by simp
    have h4: "\<not> truthy_token (snd (last rest))" using Cons.prems(4) False by simp
    from Cons.IH[OF False h2 h3 h4, of "acc @ its" t "pn + 1"]
    obtain st' where
      r: "request_loop E cfg url ps True (acc @ its) t (pn + 1) ?st1 =
            Some (Inr ((acc @ its) @ concat (map fst rest)), st')"
      and h: "map fst (history st') = map fst (history ?st1) @
                 map (paginated_params ps True) (t # map snd (butlast rest))"
      and f: "posts st' = posts ?st1" "sleeps st' = sleeps ?st1" "token st' = token ?st1"
      by blast
    show ?thesis using step r h f p False by simp
  qed
qed

text \<open>
  C4. Let the server answer the k-th GET of a fetch with the k-th of a non-empty finite
  sequence of pages, each a body whose \<open>items\<close> is a list together with a cursor, where
  every page but the last carries a cursor (a non-empty token) and the last carries none.
  Then \<open>_make_request\<close> (paginating, with at least one attempt allowed per page)
  returns, having issued exactly one GET per page, the first with the caller's parameters
  and each later one with the previous page's cursor as \<open>pageToken\<close>; the result is the
  concatenation of the pages' items, whose length is the sum of the pages' lengths.
\<close>

theorem make_request_fetches_every_page_once:
  assumes "1 \<le> max_retries cfg" and "pages \<noteq> []"
    and "\<forall>k<length pages. \<forall>st' ps'. length (history st') = length (history st) + k \<longrightarrow>
           (\<exists>d. server E st' (api_url cfg @ endpoint) ps' =
                   Ok_response d (snd (pages ! k)) \<and>
                map_of d ''items'' = Some (JList (fst (pages ! k))))"
    and "\<forall>p\<in>set (butlast pages). truthy_token (snd p)"
    and "\<not> truthy_token (snd (last pages))"
  shows "\<exists>st'. make_request E cfg endpoint ps True st =
                 Some (Inr (concat (map fst pages)), st') \<and>
               length (history st') = length (history st) + length pages \<and>
               map fst (history st') =
                 map fst (history st) @
                 map (paginated_params (case ps of None \<Rightarrow> Map.empty | Some p \<Rightarrow> p) True)
                   (None # map snd (butlast pages)) \<and>
               length (concat (map fst pages)) = sum_list (map (\<lambda>p. length (fst p)) pages) \<and>
               posts st' = posts st \<and> sleeps st' = sleeps st"
proof -
  from request_loop_pages[OF assms, of "case ps of None \<Rightarrow> Map.empty | Some p \<Rightarrow> p" "[]" None 1]
  obtain st' where
    r: "make_request E cfg endpoint ps True st = Some (Inr (concat (map fst pages)), st')"
    and h: "map fst (history st') =
                 map fst (history st) @
                 map (paginated_params (case ps of None \<Rightarrow> Map.empty | Some p \<Rightarrow> p) True)
                   (None # map snd (butlast pages))"
    and f: "posts st' = posts st" "sleeps st' = sleeps st"
    by (auto simp: make_request_def)
  from h have "length (map fst (history st')) =
      length (map fst (history st) @
                 map (paginated_params (case ps of None \<Rightarrow> Map.empty | Some p \<Rightarrow> p) True)
                   (None # map snd (butlast pages)))" by simp
  with assms(2) have l: "length (history st') = length (history st) + length pages"
    by simp
  have s: "length (concat (map fst pages)) = sum_list (map (\<lambda>p. length (fst p)) pages)"
    by (simp add: length_concat comp_def)
  from r h f l s show ?thesis by blast
qed

theorem make_request_fetches_every_page_once_witness:
  "\<exists>st'. make_request
       \<lparr>server = scripted [page_of [1, 2] (Some ''page2_token''),
                           page_of [3, 4] (Some ''page3_token''), page_of [5] None],
        auth_server = auth_ok\<rparr>
       (cfg_of 3) ''/test-endpoint'' None True st0 =
         Some (Inr [JInt 1, JInt 2, JInt 3, JInt 4, JInt 5], st') \<and>
       length (history st') = 3 \<and>
       map fst (history st') =
         [Map.empty, [''pageToken'' \<mapsto> ''page2_token''], [''pageToken'' \<mapsto> ''page3_token'']]"
proof -
  let ?pages = "[([JInt 1, JInt 2], Some ''page2_token''),
                 ([JInt 3, JInt 4], Some ''page3_token''), ([JInt 5], None)]"
  let ?E = "\<lparr>server = scripted [page_of [1, 2] (Some ''page2_token''),
                           page_of [3, 4] (Some ''page3_token''), page_of [5] None],
        auth_server = auth_ok\<rparr>"
  have a: "1 \<le> max_retries (cfg_of 3)" by (simp add: cfg_of_def)
  have b: "?pages \<noteq> []" by simp
  have c: "\<forall>k<length ?pages. \<forall>st' ps'. length (history st') = length (history st0) + k \<longrightarrow>
           (\<exists>d. server ?E st' (api_url (cfg_of 3) @ ''/test-endpoint'') ps' =
                   Ok_response d (snd (?pages ! k)) \<and>
                map_of d ''items'' = Some (JList (fst (?pages ! k))))"
    by (simp add: scripted_def page_of_def st0_def All_less_Suc numeral_3_eq_3
          del: upt_Suc)
  have d: "\<forall>p\<in>set (butlast ?pages). truthy_token (snd p)" by simp
  have e: "\<not> truthy_token (snd (last ?pages))" by simp
  from make_request_fetches_every_page_once[OF a b c d e, of None]
  show ?thesis by (auto simp: st0_def paginated_params_def)
qed

section \<open>Dry run\<close>

text \<open>A full run with every feature enabled enters the nine stages in order.\<close>

lemma full_run_enters_every_stage:
  "fst (authenticate E (api s)) = Inr True \<Longrightarrow>
     fst (run_full_sync E \<lparr>enable_metrics = True, enable_analytics = True\<rparr> True False s) \<and>
     stages (snd (run_full_sync E \<lparr>enable_metrics = True, enable_analytics = True\<rparr>
                    True False s)) =
       stages s @ [AUTH, INDEX, REFERENCE, CORE_ENTITIES, TRANSACTIONAL, RELATIONSHIPS,
                   METRICS, ANALYTICS, SUMMARY]"
  by (cases "authenticate E (api s)")
     (auto simp: run_full_sync_def orch_authenticate_def enter_def print_summary_def
        close_connections_def create_indexes_def sync_reference_data_def
        sync_core_entities_def sync_transactional_data_def create_relationships_def
        calculate_metrics_def create_analytics_def Let_def)

text \<open>
  C8 (as amended). With \<open>dry_run = True\<close>: if authentication succeeds,
  \<open>run_full_sync\<close> returns \<open>True\<close> having entered AUTH and then the closing SUMMARY
  report, which is not guarded by \<open>dry_run\<close>, and nothing else: none of INDEX,
  REFERENCE, CORE_ENTITIES, TRANSACTIONAL, RELATIONSHIPS, METRICS and ANALYTICS is
  entered. If authentication fails it returns \<open>False\<close> having entered AUTH alone. The
  connection is closed either way.
\<close>

theorem dry_run_runs_auth_and_summary:
  "(fst (authenticate E (api s)) = Inr True \<longrightarrow>
      fst (run_full_sync E sc create_indexes_flag True s) = True \<and>
      stages (snd (run_full_sync E sc create_indexes_flag True s)) =
        stages s @ [AUTH, SUMMARY] \<and>
      set (stages (snd (run_full_sync E sc create_indexes_flag True s))) \<inter>
        {INDEX, REFERENCE, CORE_ENTITIES, TRANSACTIONAL, RELATIONSHIPS, METRICS, ANALYTICS}
        = set (stages s) \<inter>
        {INDEX, REFERENCE, CORE_ENTITIES, TRANSACTIONAL, RELATIONSHIPS, METRICS, ANALYTICS} \<and>
      closed (snd (run_full_sync E sc create_indexes_flag True s))) \<and>
   (fst (authenticate E (api s)) = Inr False \<longrightarrow>
      fst (run_full_sync E sc create_indexes_flag True s) = False \<and>
      stages (snd (run_full_sync E sc create_indexes_flag True s)) = stages s @ [AUTH] \<and>
      closed (snd (run_full_sync E sc create_indexes_flag True s)))"
  by (cases "authenticate E (api s)")
     (auto simp: run_full_sync_def orch_authenticate_def enter_def print_summary_def
        close_connections_def Let_def)

theorem dry_run_runs_auth_and_summary_witness:
  "run_full_sync \<lparr>server = scripted [], auth_server = auth_ok\<rparr>
      \<lparr>enable_metrics = True, enable_analytics = True\<rparr> True True s0 =
     (True, \<lparr>api = st0\<lparr>token := Some (JStr ''secret''), posts := 1\<rparr>,
             stages = [AUTH, SUMMARY], closed = True\<rparr>) \<and>
   run_full_sync \<lparr>server = scripted [], auth_server = auth_denied\<rparr>
      \<lparr>enable_metrics = True, enable_analytics = True\<rparr> True True s0 =
     (False, \<lparr>api = st0\<lparr>posts := 1\<rparr>, stages = [AUTH], closed = True\<rparr>)"
proof -
  let ?sc = "\<lparr>enable_metrics = True, enable_analytics = True\<rparr>"
  let ?Ea = "\<lparr>server = scripted [], auth_server = auth_ok\<rparr>"
  let ?Eb = "\<lparr>server = scripted [], auth_server = auth_denied\<rparr>"
  have a: "fst (authenticate ?Ea (api s0)) = Inr True"
    by (simp add: authenticate_def auth_ok_def Let_def)
  have b: "fst (authenticate ?Eb (api s0)) = Inr False"
    by (simp add: authenticate_def auth_denied_def Let_def)
  from dry_run_runs_auth_and_summary[of ?Ea s0 ?sc True] a
  have ra: "fst (run_full_sync ?Ea ?sc True True s0) = True"
    "stages (snd (run_full_sync ?Ea ?sc True True s0)) = stages s0 @ [AUTH, SUMMARY]"
    "closed (snd (run_full_sync ?Ea ?sc True True s0))" by simp_all
  from dry_run_runs_auth_and_summary[of ?Eb s0 ?sc True] b
  have rb: "fst (run_full_sync ?Eb ?sc True True s0) = False"
    "stages (snd (run_full_sync ?Eb ?sc True True s0)) = stages s0 @ [AUTH]"
    "closed (snd (run_full_sync ?Eb ?sc True True s0))" by simp_all
  have aa: "api (snd (run_full_sync ?Ea ?sc True True s0)) =
              st0\<lparr>token := Some (JStr ''secret''), posts := 1\<rparr>"
    by (simp add: run_full_sync_def orch_authenticate_def enter_def print_summary_def
          close_connections_def Let_def authenticate_def auth_ok_def s0_def st0_def)
  have ab: "api (snd (run_full_sync ?Eb ?sc True True s0)) = st0\<lparr>posts := 1\<rparr>"
    by (simp add: run_full_sync_def orch_authenticate_def enter_def print_summary_def
          close_connections_def Let_def authenticate_def auth_denied_def s0_def st0_def)
  have pa: "run_full_sync ?Ea ?sc True True s0 =
     (True, \<lparr>api = st0\<lparr>token := Some (JStr ''secret''), posts := 1\<rparr>,
             stages = [AUTH, SUMMARY], closed = True\<rparr>)"
    using ra aa by (cases "run_full_sync ?Ea ?sc True True s0") (auto simp: s0_def)
  have pb: "run_full_sync ?Eb ?sc True True s0 =
     (False, \<lparr>api = st0\<lparr>posts := 1\<rparr>, stages = [AUTH], closed = True\<rparr>)"
    using rb ab by (cases "run_full_sync ?Eb ?sc True True s0") (auto simp: s0_def)
  from pa pb show ?thesis by simp
qed

theorem dry_run_enters_summary_counterexample:
  "stages (snd (run_full_sync \<lparr>server = scripted [], auth_server = auth_ok\<rparr>
                  \<lparr>enable_metrics = True, enable_analytics = True\<rparr> True True s0)) =
     [AUTH, SUMMARY] \<and>
   [AUTH, SUMMARY] \<noteq> [AUTH]"
  by (simp add: run_full_sync_def orch_authenticate_def enter_def print_summary_def
        close_connections_def Let_def authenticate_def auth_ok_def s0_def st0_def)

section \<open>Failures of the store\<close>

lemma chunks_Nil: "chunks n [] = []"
  by (subst chunks.simps) simp

lemma merge_chunks_append:
  "merge_chunks label (pre @ rest) total_merged w =
     (case merge_chunks label pre total_merged w of
        (Inl e, w1) \<Rightarrow> (Inl e, w1)
      | (Inr merged, w1) \<Rightarrow> merge_chunks label rest merged w1)"
proof (induction pre arbitrary: total_merged w)
  case Nil
  then show ?case by simp
next
  case (Cons batch pre)
  show ?case
  proof (cases batch)
    case Nil
    then show ?thesis using Cons.IH by simp
  next
    case (Cons item others)
    then show ?thesis using Cons.IH
      by (simp split: prod.splits sum.splits)
  qed
qed

text \<open>
  C6 (as amended). A failed round trip is logged and re-raised by \<open>_execute_query\<close>
  and by \<open>batch_merge_nodes\<close>, at whichever chunk it happens (the chunks before it
  having been merged); the period linkage and the contact linkage instead log the failure
  and return 0 as a normal result.
\<close>

theorem store_failure_reraised_or_answered_with_zero:
  "(session_run q w = (Inl e, wa) \<longrightarrow>
      execute_query q w =
        (Inl e, log_add [Error_msg ''Query execution failed'', Debug_msg ''Query'',
                         Debug_msg ''Parameters''] wa)) \<and>
   (merge_chunks label pre total_merged w = (Inr merged, wk) \<and>
    session_run (Unwind_merge label (item # others) (set_keys item)) wk = (Inl e, wa) \<longrightarrow>
      merge_chunks label (pre @ (item # others) # rest) total_merged w =
        (Inl e, log_add [Error_msg ''Batch merge failed''] wa)) \<and>
   (0 < batch_size \<and>
    chunks (nat batch_size) items = pre @ (item # others) # rest \<and>
    merge_chunks label pre 0 w = (Inr merged, wk) \<and>
    session_run (Unwind_merge label (item # others) (set_keys item)) wk = (Inl e, wa) \<longrightarrow>
      batch_merge_nodes label items batch_size w =
        (Inl e, log_add [Error_msg ''Batch merge failed''] wa)) \<and>
   (session_run (Link_by_fk ''ContactPerson'' ''customerGuid'' ''Customer'' ''HAS_CONTACT'') w
      = (Inl e, wa) \<longrightarrow>
      create_customer_contact_relationships w =
        (Inr 0, log_add [Error_msg ''Failed to create relationships''] wa)) \<and>
   (session_run (Link_facts fact_entity date_property) w = (Inl e, wa) \<longrightarrow>
      link_facts_to_periods fact_entity date_property w =
        (Inr 0, log_add [Error_msg ''Failed to link to periods''] wa))"
proof (intro conjI impI)
  assume "session_run q w = (Inl e, wa)"
  then show "execute_query q w =
        (Inl e, log_add [Error_msg ''Query execution failed'', Debug_msg ''Query'',
                         Debug_msg ''Parameters''] wa)"
    by (simp add: execute_query_def)
next
  assume "merge_chunks label pre total_merged w = (Inr merged, wk) \<and>
    session_run (Unwind_merge label (item # others) (set_keys item)) wk = (Inl e, wa)"
  then show "merge_chunks label (pre @ (item # others) # rest) total_merged w =
        (Inl e, log_add [Error_msg ''Batch merge failed''] wa)"
    by (simp add: merge_chunks_append)
next
  assume h: "0 < batch_size \<and>
    chunks (nat batch_size) items = pre @ (item # others) # rest \<and>
    merge_chunks label pre 0 w = (Inr merged, wk) \<and>
    session_run (Unwind_merge label (item # others) (set_keys item)) wk = (Inl e, wa)"
  then have ne: "items \<noteq> []" by (auto simp: chunks_Nil)
  from h have "merge_chunks label (chunks (nat batch_size) items) 0 w =
        (Inl e, log_add [Error_msg ''Batch merge failed''] wa)"
    by (simp add: merge_chunks_append)
  with h ne show "batch_merge_nodes label items batch_size w =
        (Inl e, log_add [Error_msg ''Batch merge failed''] wa)"
    by (simp add: batch_merge_nodes_def)
next
  assume "session_run (Link_by_fk ''ContactPerson'' ''customerGuid'' ''Customer'' ''HAS_CONTACT'') w
      = (Inl e, wa)"
  then show "create_customer_contact_relationships w =
        (Inr 0, log_add [Error_msg ''Failed to create relationships''] wa)"
    by (simp add: create_customer_contact_relationships_def)
next
  assume "session_run (Link_facts fact_entity date_property) w = (Inl e, wa)"
  then show "link_facts_to_periods fact_entity date_property w =
        (Inr 0, log_add [Error_msg ''Failed to link to periods''] wa)"
    by (simp add: link_facts_to_periods_def)
qed

lemma session_run_down:
  "session_run q w_down = (Inl (Neo4jError ServiceUnavailable), w_down\<lparr>trips := 1\<rparr>)"
  by (simp add: session_run_def w_down_def w0_def)

lemma chunks_three_items:
  "chunks 2 three_items =
     [[[(''guid'', JStr ''a'')], [(''guid'', JStr ''b'')]], [[(''guid'', JStr ''c'')]]]"
  by (subst chunks.simps, subst chunks.simps, subst chunks.simps) (simp add: three_items_def)

theorem store_failure_reraised_or_answered_with_zero_witness:
  "execute_query (Merge_set ''Customer'' (JStr ''c-1'') []) w_down =
     (Inl (Neo4jError ServiceUnavailable),
      log_add [Error_msg ''Query execution failed'', Debug_msg ''Query'',
               Debug_msg ''Parameters''] (w_down\<lparr>trips := 1\<rparr>)) \<and>
   fst (batch_merge_nodes ''Customer'' three_items 2 w_flaky) =
     Inl (Neo4jError ServiceUnavailable) \<and>
   logged (snd (batch_merge_nodes ''Customer'' three_items 2 w_flaky)) =
     [Error_msg ''Batch merge failed''] \<and>
   column ''guid'' (snd (batch_merge_nodes ''Customer'' three_items 2 w_flaky)) =
     [Some (PStr ''a''), Some (PStr ''b'')] \<and>
   create_customer_contact_relationships w_down =
     (Inr 0, log_add [Error_msg ''Failed to create relationships''] (w_down\<lparr>trips := 1\<rparr>)) \<and>
   link_facts_to_periods ''WorkHour'' ''eventDate'' w_down =
     (Inr 0, log_add [Error_msg ''Failed to link to periods''] (w_down\<lparr>trips := 1\<rparr>))"
proof -
  let ?wk = "w_flaky\<lparr>nodes := [\<lparr>nid = 0, nlabel = ''Customer'',
                               props = [''guid'' \<mapsto> PStr ''a'']\<rparr>,
                              \<lparr>nid = 1, nlabel = ''Customer'',
                               props = [''guid'' \<mapsto> PStr ''b'']\<rparr>],
                    next_id := 2, trips := 1\<rparr>"
  let ?wa = "?wk\<lparr>trips := 2\<rparr>"
  note t = store_failure_reraised_or_answered_with_zero [where
      q = "Merge_set ''Customer'' (JStr ''c-1'') []" and w = w_down
      and e = "Neo4jError ServiceUnavailable" and wa = "w_down\<lparr>trips := 1\<rparr>"
      and fact_entity = "''WorkHour''" and date_property = "''eventDate''"]
  have a: "execute_query (Merge_set ''Customer'' (JStr ''c-1'') []) w_down =
     (Inl (Neo4jError ServiceUnavailable),
      log_add [Error_msg ''Query execution failed'', Debug_msg ''Query'',
               Debug_msg ''Parameters''] (w_down\<lparr>trips := 1\<rparr>))"
    using t by (simp add: session_run_down)
  have c: "create_customer_contact_relationships w_down =
     (Inr 0, log_add [Error_msg ''Failed to create relationships''] (w_down\<lparr>trips := 1\<rparr>))"
    using t by (simp add: session_run_down)
  have d: "link_facts_to_periods ''WorkHour'' ''eventDate'' w_down =
     (Inr 0, log_add [Error_msg ''Failed to link to periods''] (w_down\<lparr>trips := 1\<rparr>))"
    using t by (simp add: session_run_down)
  have pre: "merge_chunks ''Customer'' [[[(''guid'', JStr ''a'')], [(''guid'', JStr ''b'')]]]
               0 w_flaky = (Inr 2, ?wk)"
    by (simp add: session_run_def w_flaky_def w0_def set_keys_def merge_item_def
          item_get_def bind_err_def merge_set_def is_node_def Let_def)
  have fail: "session_run (Unwind_merge ''Customer'' ([(''guid'', JStr ''c'')] # [])
                 (set_keys [(''guid'', JStr ''c'')])) ?wk
                = (Inl (Neo4jError ServiceUnavailable), ?wa)"
    by (simp add: session_run_def w_flaky_def w0_def)
  have ch: "chunks (nat 2) three_items =
      [[[(''guid'', JStr ''a'')], [(''guid'', JStr ''b'')]]] @
      ([(''guid'', JStr ''c'')] # []) # []"
    by (simp add: chunks_three_items)
  have b: "batch_merge_nodes ''Customer'' three_items 2 w_flaky =
      (Inl (Neo4jError ServiceUnavailable), log_add [Error_msg ''Batch merge failed''] ?wa)"
    by (rule store_failure_reraised_or_answered_with_zero [where batch_size = 2
          and items = three_items and label = "''Customer''" and w = w_flaky
          and pre = "[[[(''guid'', JStr ''a'')], [(''guid'', JStr ''b'')]]]"
          and item = "[(''guid'', JStr ''c'')]" and others = "[]" and rest = "[]"
          and e = "Neo4jError ServiceUnavailable" and wk = ?wk and wa = ?wa
          and merged = 2,
          THEN conjunct2, THEN conjunct2, THEN conjunct1, rule_format])
       (use pre fail ch in simp)
  from a b c d show ?thesis
    by (simp add: log_add_def column_def w_flaky_def w0_def)
qed

theorem linkage_swallows_store_failure_counterexample:
  "fst (session_run (Link_facts ''WorkHour'' ''eventDate'') w_down)
     = Inl (Neo4jError ServiceUnavailable) \<and>
   fst (link_facts_to_periods ''WorkHour'' ''eventDate'' w_down) = Inr 0 \<and>
   fst (session_run
          (Link_by_fk ''ContactPerson'' ''customerGuid'' ''Customer'' ''HAS_CONTACT'') w_down)
     = Inl (Neo4jError ServiceUnavailable) \<and>
   fst (create_customer_contact_relationships w_down) = Inr 0"
  by (simp add: session_run_down create_customer_contact_relationships_def
        link_facts_to_periods_def)

section \<open>Dangling foreign keys\<close>

lemma merge_rels_other_target:
  "i \<notin> snd ` set ms \<Longrightarrow>
     filter (\<lambda>x. rdst x = i) (merge_rels T ms rs) = filter (\<lambda>x. rdst x = i) rs"
proof (induction ms arbitrary: rs)
  case Nil
  then show ?case by simp
next
  case (Cons m ms)
  obtain a b where m: "m = (a, b)" by (cases m)
  with Cons.prems have "b \<noteq> i" "i \<notin> snd ` set ms" by auto
  then show ?case using Cons.IH m by simp
qed

lemma fk_matches_target:
  assumes "(a, b) \<in> set (fk_matches D fk R w)"
  shows "\<exists>p v. p \<in> set (nodes w) \<and> nid p = b \<and> props p fk = Some v \<and>
               filter (is_node R v) (nodes w) \<noteq> []"
proof -
  from assms obtain p where p: "p \<in> set (nodes w)"
    and r: "(a, b) \<in> set (case props p fk of None \<Rightarrow> []
              | Some v \<Rightarrow> map (\<lambda>c. (nid c, nid p)) (filter (is_node R v) (nodes w)))"
    by (auto simp: fk_matches_def)
  then obtain v where v: "props p fk = Some v" by (cases "props p fk") auto
  with r have "b = nid p" "filter (is_node R v) (nodes w) \<noteq> []"
    by (auto simp: filter_empty_conv)
  with p v show ?thesis by blast
qed

text \<open>
  What the linkage does where it is written with concrete names: in a store whose nodes
  have distinct identities, a node whose \<open>customerGuid\<close> names no existing Customer gets
  no relationship from \<open>create_customer_contact_relationships\<close>, no node is created, the
  call returns normally and logs one entry.
\<close>

lemma contact_linkage_tolerates_dangling_key:
  assumes "create_customer_contact_relationships w = (r, w')"
    and "distinct (map nid (nodes w))"
    and "p \<in> set (nodes w)"
    and "props p ''customerGuid'' = Some g"
    and "filter (is_node ''Customer'' g) (nodes w) = []"
  shows "(\<exists>count. r = Inr count) \<and> nodes w' = nodes w \<and>
         filter (\<lambda>x. rdst x = nid p) (rels w') = filter (\<lambda>x. rdst x = nid p) (rels w) \<and>
         filter (is_node ''Customer'' g) (nodes w') = [] \<and>
         length (logged w') = Suc (length (logged w))"
proof -
  let ?T = "''HAS_CONTACT''"
  let ?ms = "fk_matches ''ContactPerson'' ''customerGuid'' ''Customer''
               (w\<lparr>trips := Suc (trips w)\<rparr>)"
  have no: "nid p \<notin> snd ` set ?ms"
  proof
    assume "nid p \<in> snd ` set ?ms"
    then obtain a where "(a, nid p) \<in> set ?ms" by force
    from fk_matches_target[OF this] obtain q v where
      q: "q \<in> set (nodes w)" "nid q = nid p" "props q ''customerGuid'' = Some v"
         "filter (is_node ''Customer'' v) (nodes w) \<noteq> []" by auto
    from assms(2) have "inj_on nid (set (nodes w))" by (simp add: distinct_map)
    with q(1,2) assms(3) have "q = p" by (auto dest: inj_onD)
    with q(3,4) assms(4,5) show False by simp
  qed
  show ?thesis
  proof (cases "faults w (trips w)")
    case True
    with assms(1,5) show ?thesis
      by (auto simp: create_customer_contact_relationships_def session_run_def log_add_def
            Let_def)
  next
    case False
    with assms(1) have
      "w' = log_add [Info_count ''Created relationships'' (int (length ?ms))]
              (w\<lparr>trips := Suc (trips w), rels := merge_rels ?T ?ms (rels w)\<rparr>)"
      "r = Inr (int (length ?ms))"
      by (auto simp: create_customer_contact_relationships_def session_run_def Let_def
            single_count_def)
    then show ?thesis
      using merge_rels_other_target[OF no, of ?T "rels w"] assms(5)
      by (simp add: log_add_def)
  qed
qed

lemma contact_linkage_dangling_example:
  "create_customer_contact_relationships w_dangling_contact =
     (Inr 0, log_add [Info_count ''Created relationships'' 0]
               (w_dangling_contact\<lparr>trips := 1\<rparr>))"
  by (simp add: create_customer_contact_relationships_def session_run_def
        w_dangling_contact_def w0_def fk_matches_def is_node_def single_count_def
        log_add_def Let_def)

lemma project_linkage_always_raises:
  "fst (create_customer_project_relationships w) = Inl (NameError ''Entity2'') \<and>
   logged (snd (create_customer_project_relationships w)) = logged w"
  by (simp add: create_customer_project_relationships_def session_run_def Let_def)

text \<open>
  C7. The claim is that linking a record whose foreign key names no existing node creates
  no relationship, creates no node, and raises no exception. On the store holding one
  project with the dangling key \<open>c-404\<close>, \<open>create_customer_project_relationships\<close> as
  it stands creates nothing, but it raises \<open>NameError\<close> and logs nothing: its log
  messages evaluate the unbound name \<open>Entity2\<close>.
\<close>

theorem project_linkage_raises_name_error:
  "create_customer_project_relationships w_dangling =
     (Inl (NameError ''Entity2''), w_dangling\<lparr>trips := 1\<rparr>)"
  by (simp add: create_customer_project_relationships_def session_run_def w_dangling_def
        w0_def Let_def)

section \<open>Batch merge\<close>

lemma set_props_other: "k \<notin> fst ` set sets \<Longrightarrow> set_props m sets k = m k"
  by (induction sets arbitrary: m) auto

lemma to_props_keys: "to_props kvs = Inr sets \<Longrightarrow> map fst sets = map fst kvs"
proof (induction kvs arbitrary: sets)
  case Nil
  then show ?case by simp
next
  case (Cons kv kvs)
  obtain k v where kv: "kv = (k, v)" by (cases kv)
  from Cons.prems kv obtain pv r where
    "to_props kvs = Inr r" "sets = (k, pv) # r"
    by (auto simp: bind_err_def split: sum.splits)
  with Cons.IH kv show ?case by simp
qed

lemma merge_set_column:
  assumes "k \<notin> fst ` set sets" and "k \<noteq> ''guid''"
  shows "\<exists>m. map (\<lambda>n. props n k) (nodes (merge_set L g sets w)) =
              map (\<lambda>n. props n k) (nodes w) @ replicate m None"
proof (cases "filter (is_node L g) (nodes w) = []")
  case True
  then have "map (\<lambda>n. props n k) (nodes (merge_set L g sets w)) =
              map (\<lambda>n. props n k) (nodes w) @ replicate 1 None"
    using assms by (simp add: merge_set_def set_props_other)
  then show ?thesis by blast
next
  case False
  then have "map (\<lambda>n. props n k) (nodes (merge_set L g sets w)) =
              map (\<lambda>n. props n k) (nodes w) @ replicate 0 None"
    using assms by (simp add: merge_set_def set_props_other)
  then show ?thesis by blast
qed

lemma merge_item_column:
  assumes "k \<notin> set keys" and "k \<noteq> ''guid''" and "merge_item L keys item w = Inr w'"
  shows "\<exists>m. map (\<lambda>n. props n k) (nodes w') = map (\<lambda>n. props n k) (nodes w) @ replicate m None"
proof -
  from assms(3) obtain gv sets where
    s: "to_props (map (\<lambda>k. (k, item_get item k)) keys) = Inr sets"
    and w': "w' = merge_set L gv sets w"
    by (auto simp: merge_item_def bind_err_def split: sum.splits option.splits)
  from to_props_keys[OF s] have "map fst sets = keys" by (simp add: comp_def)
  then have "fst ` set sets = set keys" by (metis set_map)
  with assms(1) have "k \<notin> fst ` set sets" by simp
  from merge_set_column[OF this assms(2)] w' show ?thesis by simp
qed

lemma unwind_merge_column:
  assumes "k \<notin> set keys" and "k \<noteq> ''guid''"
  shows "unwind_merge L keys items w = Inr w' \<Longrightarrow>
     \<exists>m. map (\<lambda>n. props n k) (nodes w') = map (\<lambda>n. props n k) (nodes w) @ replicate m None"
proof (induction items arbitrary: w)
  case Nil
  then have "map (\<lambda>n. props n k) (nodes w') = map (\<lambda>n. props n k) (nodes w) @ replicate 0 None"
    by simp
  then show ?case by blast
next
  case (Cons item items)
  then obtain w1 where a: "merge_item L keys item w = Inr w1"
    and b: "unwind_merge L keys items w1 = Inr w'"
    by (auto simp: bind_err_def split: sum.splits)
  from merge_item_column[OF assms a] obtain m1 where
    "map (\<lambda>n. props n k) (nodes w1) = map (\<lambda>n. props n k) (nodes w) @ replicate m1 None"
    by blast
  moreover from Cons.IH[OF b] obtain m2 where
    "map (\<lambda>n. props n k) (nodes w') = map (\<lambda>n. props n k) (nodes w1) @ replicate m2 None"
    by blast
  ultimately have "map (\<lambda>n. props n k) (nodes w') =
      map (\<lambda>n. props n k) (nodes w) @ replicate (m1 + m2) None"
    by (simp add: replicate_add)
  then show ?case by blast
qed

lemma unwind_merge_no_guid:
  "map_of item ''guid'' = None \<Longrightarrow> unwind_merge L keys (item # others) w = Inl MergeNullKey"
  by (simp add: merge_item_def item_get_def bind_err_def)

lemma chunk_statement_column:
  assumes "key \<notin> fst ` set item"
    and "session_run (Unwind_merge label (item # others) (set_keys item)) w = (res, wa)"
  shows "\<exists>m. map (\<lambda>n. props n key) (nodes wa) =
              map (\<lambda>n. props n key) (nodes w) @ replicate m None"
proof (cases "key = ''guid''")
  case True
  with assms(1) have "map_of item ''guid'' = None" by (simp add: map_of_eq_None_iff)
  from unwind_merge_no_guid[OF this] assms(2)
  have "nodes wa = nodes w"
    by (auto simp: session_run_def Let_def bind_err_def split: if_splits)
  then have "map (\<lambda>n. props n key) (nodes wa) =
              map (\<lambda>n. props n key) (nodes w) @ replicate 0 None" by simp
  then show ?thesis by blast
next
  case False
  with assms(1) have k: "key \<notin> set (set_keys item)"
    by (auto simp: set_keys_def Let_def)
  let ?w1 = "w\<lparr>trips := Suc (trips w)\<rparr>"
  show ?thesis
  proof (cases "unwind_merge label (set_keys item) (item # others) ?w1")
    case (Inl e)
    with assms(2) have "nodes wa = nodes w"
      by (auto simp: session_run_def Let_def bind_err_def split: if_splits)
    then have "map (\<lambda>n. props n key) (nodes wa) =
              map (\<lambda>n. props n key) (nodes w) @ replicate 0 None" by simp
    then show ?thesis by blast
  next
    case (Inr w2)
    from unwind_merge_column[OF k False Inr] obtain m where
      m: "map (\<lambda>n. props n key) (nodes w2) =
            map (\<lambda>n. props n key) (nodes w) @ replicate m None" by auto
    from assms(2) Inr have "nodes wa = nodes w \<or> wa = w2"
      by (auto simp: session_run_def Let_def bind_err_def split: if_splits)
    then show ?thesis
    proof
      assume "nodes wa = nodes w"
      then have "map (\<lambda>n. props n key) (nodes wa) =
              map (\<lambda>n. props n key) (nodes w) @ replicate 0 None" by simp
      then show ?thesis by blast
    next
      assume "wa = w2"
      with m show ?thesis by blast
    qed
  qed
qed

lemma merge_chunks_column:
  assumes "\<forall>batch\<in>set chs. case batch of [] \<Rightarrow> True | item # others \<Rightarrow> key \<notin> fst ` set item"
    and "merge_chunks label chs total_merged w = (res, w')"
  shows "\<exists>m. map (\<lambda>n. props n key) (nodes w') =
              map (\<lambda>n. props n key) (nodes w) @ replicate m None"
  using assms
proof (induction chs arbitrary: total_merged w)
  case Nil
  then have "map (\<lambda>n. props n key) (nodes w') =
              map (\<lambda>n. props n key) (nodes w) @ replicate 0 None" by simp
  then show ?case by blast
next
  case (Cons batch chs)
  show ?case
  proof (cases batch)
    case Nil
    with Cons show ?thesis by simp
  next
    case (Cons item others)
    obtain r1 w1 where
      run: "session_run (Unwind_merge label (item # others) (set_keys item)) w = (r1, w1)"
      by (cases "session_run (Unwind_merge label (item # others) (set_keys item)) w")
    from Cons.prems(1) Cons have "key \<notin> fst ` set item" by simp
    from chunk_statement_column[OF this run] obtain m1 where
      m1: "map (\<lambda>n. props n key) (nodes w1) =
             map (\<lambda>n. props n key) (nodes w) @ replicate m1 None" by blast
    show ?thesis
    proof (cases r1)
      case (Inl e)
      with Cons.prems(2) Cons run have "nodes w' = nodes w1" by (auto simp: log_add_def)
      with m1 show ?thesis by auto
    next
      case (Inr rows)
      with Cons.prems(2) Cons run
      have "merge_chunks label chs (total_merged + int (length batch)) w1 = (res, w')"
        by simp
      from Cons.IH[OF _ this] Cons.prems(1) obtain m2 where
        "map (\<lambda>n. props n key) (nodes w') =
           map (\<lambda>n. props n key) (nodes w1) @ replicate m2 None" by auto
      with m1 have "map (\<lambda>n. props n key) (nodes w') =
           map (\<lambda>n. props n key) (nodes w) @ replicate (m1 + m2) None"
        by (simp add: replicate_add)
      then show ?thesis by blast
    qed
  qed
qed

text \<open>
  C10. With an empty \<open>items\<close> list \<open>batch_merge_nodes\<close> returns 0 and leaves the world as
  it is (no round trip). Otherwise each chunk's \<open>SET\<close> clause is built from its first item
  alone: processing a chunk whose first item lacks a key leaves that key's value on every
  node that existed as it was and creates nodes without it, whatever the later items of
  the chunk carry; so a call none of whose chunks starts with an item having the key never
  writes it.
\<close>

theorem batch_merge_set_clause_from_first_item:
  "batch_merge_nodes label [] batch_size w = (Inr 0, w) \<and>
   (key \<notin> fst ` set item \<and>
    merge_chunks label [item # others] total_merged w = (res, wa) \<longrightarrow>
      (\<exists>m. column key wa = column key w @ replicate m None)) \<and>
   ((\<forall>batch\<in>set (chunks (nat batch_size) items).
        case batch of [] \<Rightarrow> True | first # later \<Rightarrow> key \<notin> fst ` set first) \<and>
    batch_merge_nodes label items batch_size w = (res, wb) \<longrightarrow>
      (\<exists>m. column key wb = column key w @ replicate m None))"
  unfolding column_def
proof (intro conjI impI)
  show "batch_merge_nodes label [] batch_size w = (Inr 0, w)"
    by (simp add: batch_merge_nodes_def)
next
  assume "key \<notin> fst ` set item \<and>
    merge_chunks label [item # others] total_merged w = (res, wa)"
  then show "\<exists>m. map (\<lambda>n. props n key) (nodes wa) =
             map (\<lambda>n. props n key) (nodes w) @ replicate m None"
    using merge_chunks_column[of "[item # others]" key label total_merged w res wa] by simp
next
  assume h: "(\<forall>batch\<in>set (chunks (nat batch_size) items).
        case batch of [] \<Rightarrow> True | first # later \<Rightarrow> key \<notin> fst ` set first) \<and>
    batch_merge_nodes label items batch_size w = (res, wb)"
  have same: "\<exists>m. map (\<lambda>n. props n key) (nodes wb) =
             map (\<lambda>n. props n key) (nodes w) @ replicate m None"
    if "nodes wb = nodes w"
  proof -
    from that have "map (\<lambda>n. props n key) (nodes wb) =
             map (\<lambda>n. props n key) (nodes w) @ replicate 0 None" by simp
    then show ?thesis by blast
  qed
  let ?chs = "if batch_size < 0 then [] else chunks (nat batch_size) items"
  obtain r1 w1 where run: "merge_chunks label ?chs 0 w = (r1, w1)"
    by (cases "merge_chunks label ?chs 0 w")
  from h have "\<forall>batch\<in>set ?chs.
        case batch of [] \<Rightarrow> True | first # later \<Rightarrow> key \<notin> fst ` set first" by simp
  from merge_chunks_column[OF this run] obtain m where
    m: "map (\<lambda>n. props n key) (nodes w1) =
          map (\<lambda>n. props n key) (nodes w) @ replicate m None" by blast
  from h run have "nodes wb = nodes w \<or> nodes wb = nodes w1"
    by (auto simp: batch_merge_nodes_def log_add_def split: if_splits sum.splits)
  then show "\<exists>m. map (\<lambda>n. props n key) (nodes wb) =
             map (\<lambda>n. props n key) (nodes w) @ replicate m None"
    using same m by auto
qed

lemma chunks_two_items: "chunks 1000 two_items = [two_items]"
  by (subst chunks.simps, subst chunks.simps) (simp add: two_items_def)

theorem batch_merge_set_clause_from_first_item_witness:
  "fst (batch_merge_nodes ''Customer'' two_items 1000 w0) = Inr 2 \<and>
   column ''extra'' (snd (batch_merge_nodes ''Customer'' two_items 1000 w0)) = [None, None] \<and>
   column ''name'' (snd (batch_merge_nodes ''Customer'' two_items 1000 w0)) =
     [Some (PStr ''A''), Some (PStr ''B'')]"
proof -
  let ?wb = "w0\<lparr>nodes := [\<lparr>nid = 0, nlabel = ''Customer'',
                      props = [''guid'' \<mapsto> PStr ''a'', ''name'' \<mapsto> PStr ''A'']\<rparr>,
                     \<lparr>nid = 1, nlabel = ''Customer'',
                      props = [''guid'' \<mapsto> PStr ''b'', ''name'' \<mapsto> PStr ''B'']\<rparr>],
           next_id := 2, trips := 1, logged := [Info_count ''Merged nodes'' 2]\<rparr>"
  have run: "batch_merge_nodes ''Customer'' two_items 1000 w0 = (Inr 2, ?wb)"
    by (simp add: batch_merge_nodes_def chunks_two_items)
       (simp add: two_items_def session_run_def w0_def set_keys_def merge_item_def
          item_get_def bind_err_def merge_set_def is_node_def log_add_def Let_def)
  have pre: "\<forall>batch\<in>set (chunks (nat 1000) two_items).
        case batch of [] \<Rightarrow> True | first # later \<Rightarrow> ''extra'' \<notin> fst ` set first"
    by (simp add: chunks_two_items) (simp add: two_items_def)
  note t = batch_merge_set_clause_from_first_item [where label = "''Customer''"
      and items = two_items and batch_size = 1000 and w = w0 and key = "''extra''"
      and res = "Inr 2" and wb = ?wb, THEN conjunct2, THEN conjunct2, rule_format]
  have ex: "\<exists>m. column ''extra'' ?wb = column ''extra'' w0 @ replicate m None"
    by (rule t) (use pre run in simp)
  show ?thesis using ex by (simp add: run column_def)
qed

section \<open>Period metrics\<close>

lemma metric_bag_stamp:
  "metric_bag w p = Inr bag \<Longrightarrow>
     set_props m bag ''lastDenormalizedAt'' = Some (PTime (clock w))"
  by (auto simp: metric_bag_def Let_def bind_err_def split: sum.splits)

lemma set_metrics_targets:
  "set_metrics w t ns = Inr ns' \<Longrightarrow>
     list_all2 (\<lambda>n n'. nid n' = nid n \<and> nlabel n' = nlabel n \<and>
                  (if t n then props n' ''lastDenormalizedAt'' = Some (PTime (clock w))
                   else n' = n)) ns ns'"
proof (induction ns arbitrary: ns')
  case Nil
  then show ?case by simp
next
  case (Cons n ns)
  show ?case
  proof (cases "t n")
    case True
    with Cons.prems obtain bag r where
      b: "metric_bag w n = Inr bag" and r: "set_metrics w t ns = Inr r"
      and e: "ns' = n\<lparr>props := set_props (props n) bag\<rparr> # r"
      by (auto simp: bind_err_def split: sum.splits)
    from metric_bag_stamp[OF b] Cons.IH[OF r] e True show ?thesis by simp
  next
    case False
    with Cons.prems obtain r where r: "set_metrics w t ns = Inr r" and e: "ns' = n # r"
      by (auto simp: bind_err_def split: sum.splits)
    from Cons.IH[OF r] e False show ?thesis by simp
  qed
qed

text \<open>
  C9. \<open>calculate_period_metrics\<close> with an explicit empty list returns 0 and leaves the
  world exactly as it was: no round trip, no node changed, nothing logged. With
  \<open>periods = None\<close> it makes one round trip with no \<open>WHERE\<close> clause, and when that
  succeeds every node labelled with the capitalised period type has been stamped with the
  recomputation time and counted, while every other node is as it was.
\<close>

theorem empty_period_list_is_noop:
  "calculate_period_metrics period_type (Some []) w = (Inr 0, w) \<and>
   (session_run (Period_metrics (capitalize period_type) None) w = (Inr rows, wa) \<longrightarrow>
      calculate_period_metrics period_type None w =
        (Inr (int (length (filter (\<lambda>n. nlabel n = capitalize period_type) (nodes w)))),
         log_add [Info_count ''Denormalized metrics''
                    (int (length (filter (\<lambda>n. nlabel n = capitalize period_type) (nodes w))))]
           wa) \<and>
      trips wa = Suc (trips w) \<and>
      list_all2 (\<lambda>n n'. nid n' = nid n \<and> nlabel n' = nlabel n \<and>
                   (if nlabel n = capitalize period_type
                    then props n' ''lastDenormalizedAt'' = Some (PTime (clock w))
                    else n' = n)) (nodes w) (nodes wa))"
proof (intro conjI impI)
  show "calculate_period_metrics period_type (Some []) w = (Inr 0, w)"
    by (simp add: calculate_period_metrics_def)
next
  let ?L = "capitalize period_type"
  let ?w1 = "w\<lparr>trips := Suc (trips w)\<rparr>"
  have t: "targeted ?L None = (\<lambda>n. nlabel n = ?L)"
    by (rule ext) (simp add: targeted_def)
  assume run: "session_run (Period_metrics ?L None) w = (Inr rows, wa)"
  then obtain ns where
    ns: "set_metrics ?w1 (\<lambda>n. nlabel n = ?L) (nodes w) = Inr ns"
    and wa: "wa = ?w1\<lparr>nodes := ns\<rparr>"
    and rows: "rows = [[(''periodCount'',
                 Some (PInt (int (length (filter (\<lambda>n. nlabel n = ?L) (nodes w))))))]]"
    by (auto simp: session_run_def Let_def bind_err_def t split: if_splits sum.splits)
  from run rows show "calculate_period_metrics period_type None w =
        (Inr (int (length (filter (\<lambda>n. nlabel n = ?L) (nodes w)))),
         log_add [Info_count ''Denormalized metrics''
                    (int (length (filter (\<lambda>n. nlabel n = ?L) (nodes w))))] wa)"
    by (simp add: calculate_period_metrics_def where_periods_def single_count_def)
  from wa show "trips wa = Suc (trips w)" by simp
  from set_metrics_targets[OF ns] wa
  show "list_all2 (\<lambda>n n'. nid n' = nid n \<and> nlabel n' = nlabel n \<and>
                   (if nlabel n = ?L
                    then props n' ''lastDenormalizedAt'' = Some (PTime (clock w))
                    else n' = n)) (nodes w) (nodes wa)"
    by (auto elim!: list_all2_mono split: if_splits)
qed

lemma capitalize_month: "capitalize ''month'' = ''Month''"
  by code_simp

theorem empty_period_list_is_noop_witness:
  "calculate_period_metrics ''month'' (Some []) w_month = (Inr 0, w_month) \<and>
   fst (calculate_period_metrics ''month'' None w_month) = Inr 1 \<and>
   column ''totalHours'' (snd (calculate_period_metrics ''month'' None w_month)) =
     [Some (PInt 5), None] \<and>
   column ''billableHours'' (snd (calculate_period_metrics ''month'' None w_month)) =
     [Some (PInt 5), None] \<and>
   column ''nonBillableHours'' (snd (calculate_period_metrics ''month'' None w_month)) =
     [Some (PInt 0), None] \<and>
   trips (snd (calculate_period_metrics ''month'' None w_month)) = 1"
proof -
  let ?m = "\<lparr>nid = 0, nlabel = ''Month'',
             props = [''id'' \<mapsto> PStr ''2025-01'', ''totalHours'' \<mapsto> PInt 5,
                      ''billableHours'' \<mapsto> PInt 5, ''nonBillableHours'' \<mapsto> PInt 0,
                      ''totalCost'' \<mapsto> PInt 0, ''totalRevenue'' \<mapsto> PInt 0,
                      ''margin'' \<mapsto> PInt 0, ''marginPct'' \<mapsto> PInt 0,
                      ''uniqueUsers'' \<mapsto> PInt 0, ''uniqueProjects'' \<mapsto> PInt 0,
                      ''lastDenormalizedAt'' \<mapsto> PTime 0]\<rparr>"
  let ?f = "\<lparr>nid = 1, nlabel = ''WorkHour'',
             props = [''quantity'' \<mapsto> PInt 5, ''isBillable'' \<mapsto> PBool True]\<rparr>"
  let ?wa = "w_month\<lparr>nodes := [?m, ?f], trips := 1\<rparr>"
  have run: "session_run (Period_metrics (capitalize ''month'') None) w_month
               = (Inr [[(''periodCount'', Some (PInt 1))]], ?wa)"
    by (simp add: capitalize_month session_run_def w_month_def w0_def targeted_def
          metric_bag_def sources_of_def neighbours_def quantity_def billable_part_def
          non_billable_part_def cost_part_def distinct_guids_def List.map_filter_simps
          bind_err_def Let_def)
  note t = empty_period_list_is_noop [where period_type = "''month''" and w = w_month
      and rows = "[[(''periodCount'', Some (PInt 1))]]" and wa = ?wa]
  from t have a: "calculate_period_metrics ''month'' (Some []) w_month = (Inr 0, w_month)"
    by (rule conjunct1)
  from t[THEN conjunct2, rule_format, OF run]
  have b: "calculate_period_metrics ''month'' None w_month =
        (Inr (int (length (filter (\<lambda>n. nlabel n = capitalize ''month'') (nodes w_month)))),
         log_add [Info_count ''Denormalized metrics''
                    (int (length (filter (\<lambda>n. nlabel n = capitalize ''month'')
                                    (nodes w_month))))] ?wa)"
    by (rule conjunct1)
  from a b show ?thesis
    by (simp add: capitalize_month) (simp add: w_month_def w0_def log_add_def column_def)
qed

section \<open>Merging a customer\<close>

lemma filter_map_matching:
  assumes "\<And>n. P n \<Longrightarrow> P (u n)"
  shows "filter P (map (\<lambda>n. if P n then u n else n) ns) = map u (filter P ns)"
  using assms by (induction ns) auto

lemma merge_set_matching:
  assumes "''guid'' \<notin> fst ` set sets"
  shows "filter (is_node L g) (nodes (merge_set L g sets w)) =
           (if filter (is_node L g) (nodes w) = []
            then [\<lparr>nid = next_id w, nlabel = L,
                   props = set_props (Map.empty(''guid'' \<mapsto> g)) sets\<rparr>]
            else map (\<lambda>n. n\<lparr>props := set_props (props n) sets\<rparr>)
                   (filter (is_node L g) (nodes w)))"
proof (cases "filter (is_node L g) (nodes w) = []")
  case True
  then show ?thesis
    using assms by (simp add: merge_set_def is_node_def set_props_other)
next
  case False
  have "is_node L g (n\<lparr>props := set_props (props n) sets\<rparr>)" if "is_node L g n" for n
    using that assms by (simp add: is_node_def set_props_other)
  from filter_map_matching[of "is_node L g" "\<lambda>n. n\<lparr>props := set_props (props n) sets\<rparr>",
      OF this] False
  show ?thesis by (simp add: merge_set_def)
qed

lemma merge_set_frame [simp]:
  "faults (merge_set L g sets w) = faults w" "trips (merge_set L g sets w) = trips w"
  by (simp_all add: merge_set_def)

lemma merge_set_trips:
  "merge_set L g sets (w\<lparr>trips := t\<rparr>) = (merge_set L g sets w)\<lparr>trips := t\<rparr>"
  by (simp add: merge_set_def)

lemma set_props_lookup:
  "set_props m sets k = (case map_of (rev sets) k of None \<Rightarrow> m k | Some v \<Rightarrow> v)"
proof (induction sets arbitrary: m)
  case Nil
  then show ?case by simp
next
  case (Cons kv sets)
  obtain a v where kv: "kv = (a, v)" by (cases kv)
  show ?case
    by (cases "map_of (rev sets) k") (simp_all add: kv Cons.IH map_add_def)
qed

lemma set_props_twice: "set_props (set_props m sets) sets = set_props m sets"
  by (rule ext) (simp add: set_props_lookup split: option.splits)

text \<open>Merging the same key with the same values a second time changes nothing.\<close>

lemma merge_set_idempotent:
  assumes "''guid'' \<notin> fst ` set sets"
  shows "merge_set L g sets (merge_set L g sets w) = merge_set L g sets w"
proof -
  let ?u = "\<lambda>n. n\<lparr>props := set_props (props n) sets\<rparr>"
  let ?f = "\<lambda>n. if is_node L g n then ?u n else n"
  have keep: "is_node L g (?u n) = is_node L g n" for n
    using assms by (simp add: is_node_def set_props_other)
  have uu: "?u (?u n) = ?u n" for n :: node by (simp add: set_props_twice)
  show ?thesis
  proof (cases "filter (is_node L g) (nodes w) = []")
    case True
    let ?n = "\<lparr>nid = next_id w, nlabel = L,
               props = set_props (Map.empty(''guid'' \<mapsto> g)) sets\<rparr>"
    have n: "is_node L g ?n" using assms by (simp add: is_node_def set_props_other)
    from True have old: "map ?f (nodes w) = nodes w"
      by (intro map_idI) (auto simp: filter_empty_conv)
    have "?f ?n = ?n" by (simp add: set_props_twice)
    with True n old show ?thesis by (simp add: merge_set_def)
  next
    case False
    then obtain n where "n \<in> set (nodes w)" "is_node L g n"
      by (auto simp: filter_empty_conv)
    then have "?f n \<in> set (map ?f (nodes w))" "is_node L g (?f n)"
      using keep by auto
    then have ne: "filter (is_node L g) (map ?f (nodes w)) \<noteq> []"
      by (auto simp: filter_empty_conv simp del: set_map)
    have "map ?f (map ?f (nodes w)) = map ?f (nodes w)"
      using keep uu by (auto simp: comp_def)
    with False ne show ?thesis by (simp add: merge_set_def)
  qed
qed

lemma sync_customer_acme_account_owner:
  "\<not> faults w (trips w) \<Longrightarrow>
     sync_customer acme_account_owner w =
       (Inr True,
        merge_set ''Customer'' (PStr ''c-1'')
          [(''name'', Some (PStr ''Acme'')), (''number'', Some (PStr '''')),
           (''isActive'', Some (PBool True)), (''businessUnitGuid'', None),
           (''accountOwnerGuid'', Some (PStr ''u-9'')), (''lastModified'', Some (PStr ''''))]
          (w\<lparr>trips := Suc (trips w)\<rparr>))"
  by (simp add: sync_customer_def acme_account_owner_def nested_guid_def dict_get_def
        execute_query_def session_run_def bind_err_def Let_def)

lemma sync_customer_acme_corp:
  "\<not> faults w (trips w) \<Longrightarrow>
     sync_customer acme_corp w =
       (Inr True,
        merge_set ''Customer'' (PStr ''c-1'')
          [(''name'', Some (PStr ''Acme Corp'')), (''number'', Some (PStr '''')),
           (''isActive'', Some (PBool True)), (''businessUnitGuid'', None),
           (''accountOwnerGuid'', None), (''lastModified'', Some (PStr ''''))]
          (w\<lparr>trips := Suc (trips w)\<rparr>))"
  by (simp add: sync_customer_def acme_corp_def nested_guid_def dict_get_def
        execute_query_def session_run_def bind_err_def Let_def)

text \<open>
  C5 (as amended). \<open>sync_customer\<close> reads the nested objects \<open>businessUnit\<close> and
  \<open>accountOwner\<close>. In a store that holds at most one Customer node with key \<open>c-1\<close> and
  answers the round trips, merging
  \<open>{"guid":"c-1","name":"Acme","accountOwner":{"guid":"u-9"}}\<close> leaves exactly one
  Customer node with key \<open>c-1\<close>, with name \<open>Acme\<close> and \<open>accountOwnerGuid = "u-9"\<close>;
  merging \<open>{"guid":"c-1","name":"Acme Corp"}\<close> next leaves exactly one such node, the
  same one, with name \<open>Acme Corp\<close> and \<open>accountOwnerGuid\<close> null; and merging that
  record once more changes neither nodes nor relationships.
\<close>

theorem customer_merge_last_write_wins:
  assumes "\<not> faults w (trips w)" and "\<not> faults w (Suc (trips w))"
    and "\<not> faults w (Suc (Suc (trips w)))"
    and "length (customers_with ''c-1'' w) \<le> 1"
  shows "\<exists>wa wb wc na nb.
     sync_customer acme_account_owner w = (Inr True, wa) \<and>
     customers_with ''c-1'' wa = [na] \<and>
     props na ''guid'' = Some (PStr ''c-1'') \<and>
     props na ''name'' = Some (PStr ''Acme'') \<and>
     props na ''accountOwnerGuid'' = Some (PStr ''u-9'') \<and>
     sync_customer acme_corp wa = (Inr True, wb) \<and>
     customers_with ''c-1'' wb = [nb] \<and>
     nid nb = nid na \<and>
     props nb ''guid'' = Some (PStr ''c-1'') \<and>
     props nb ''name'' = Some (PStr ''Acme Corp'') \<and>
     props nb ''accountOwnerGuid'' = None \<and>
     sync_customer acme_corp wb = (Inr True, wc) \<and>
     nodes wc = nodes wb \<and> rels wc = rels wb"
proof -
  let ?s1 = "[(''name'', Some (PStr ''Acme'')), (''number'', Some (PStr '''')),
           (''isActive'', Some (PBool True)), (''businessUnitGuid'', None),
           (''accountOwnerGuid'', Some (PStr ''u-9'')), (''lastModified'', Some (PStr ''''))]"
  let ?s2 = "[(''name'', Some (PStr ''Acme Corp'')), (''number'', Some (PStr '''')),
           (''isActive'', Some (PBool True)), (''businessUnitGuid'', None),
           (''accountOwnerGuid'', None), (''lastModified'', Some (PStr ''''))]"
  let ?w1 = "w\<lparr>trips := Suc (trips w)\<rparr>"
  let ?wa = "merge_set ''Customer'' (PStr ''c-1'') ?s1 ?w1"
  let ?wa1 = "?wa\<lparr>trips := Suc (trips ?wa)\<rparr>"
  let ?wb = "merge_set ''Customer'' (PStr ''c-1'') ?s2 ?wa1"
  let ?wb1 = "?wb\<lparr>trips := Suc (trips ?wb)\<rparr>"
  let ?wc = "merge_set ''Customer'' (PStr ''c-1'') ?s2 ?wb1"
  have g1: "''guid'' \<notin> fst ` set ?s1" and g2: "''guid'' \<notin> fst ` set ?s2" by simp_all
  have ra: "sync_customer acme_account_owner w = (Inr True, ?wa)"
    using assms(1) by (rule sync_customer_acme_account_owner)
  have "\<not> faults ?wa (trips ?wa)" using assms(2) by simp
  then have rb: "sync_customer acme_corp ?wa = (Inr True, ?wb)"
    by (rule sync_customer_acme_corp)
  have "\<not> faults ?wb (trips ?wb)" using assms(3) by simp
  then have rc: "sync_customer acme_corp ?wb = (Inr True, ?wc)"
    by (rule sync_customer_acme_corp)
  have "?wc = ?wb\<lparr>trips := Suc (trips ?wb)\<rparr>"
    by (simp only: merge_set_trips merge_set_idempotent[OF g2])
  then have same: "nodes ?wc = nodes ?wb" "rels ?wc = rels ?wb" by simp_all
  from assms(4) have "customers_with ''c-1'' w = [] \<or> (\<exists>n. customers_with ''c-1'' w = [n])"
    by (cases "customers_with ''c-1'' w") auto
  then obtain na where
    na: "customers_with ''c-1'' ?wa = [na]"
      "props na ''guid'' = Some (PStr ''c-1'')"
      "props na ''name'' = Some (PStr ''Acme'')"
      "props na ''accountOwnerGuid'' = Some (PStr ''u-9'')"
  proof
    assume e: "customers_with ''c-1'' w = []"
    let ?n = "\<lparr>nid = next_id w, nlabel = ''Customer'',
               props = set_props (Map.empty(''guid'' \<mapsto> PStr ''c-1'')) ?s1\<rparr>"
    from e merge_set_matching[OF g1, of "''Customer''" "PStr ''c-1''" ?w1]
    have "customers_with ''c-1'' ?wa = [?n]" by (simp add: customers_with_def)
    then show ?thesis by (rule that) simp_all
  next
    assume "\<exists>n. customers_with ''c-1'' w = [n]"
    then obtain n where n: "customers_with ''c-1'' w = [n]" by blast
    then have "n \<in> set (filter (is_node ''Customer'' (PStr ''c-1'')) (nodes w))"
      by (simp add: customers_with_def)
    then have gn: "props n ''guid'' = Some (PStr ''c-1'')" by (simp add: is_node_def)
    let ?n = "n\<lparr>props := set_props (props n) ?s1\<rparr>"
    from n merge_set_matching[OF g1, of "''Customer''" "PStr ''c-1''" ?w1]
    have "customers_with ''c-1'' ?wa = [?n]" by (simp add: customers_with_def)
    then show ?thesis by (rule that) (simp_all add: gn)
  qed
  let ?nb = "na\<lparr>props := set_props (props na) ?s2\<rparr>"
  from na(1) merge_set_matching[OF g2, of "''Customer''" "PStr ''c-1''" ?wa1]
  have nb: "customers_with ''c-1'' ?wb = [?nb]" by (simp add: customers_with_def)
  have "nid ?nb = nid na" "props ?nb ''guid'' = Some (PStr ''c-1'')"
    "props ?nb ''name'' = Some (PStr ''Acme Corp'')" "props ?nb ''accountOwnerGuid'' = None"
    using na(2) by simp_all
  with ra rb rc same na nb show ?thesis by blast
qed

theorem customer_merge_last_write_wins_witness:
  "\<exists>wa wb wc na nb.
     sync_customer acme_account_owner w0 = (Inr True, wa) \<and>
     customers_with ''c-1'' wa = [na] \<and>
     props na ''guid'' = Some (PStr ''c-1'') \<and>
     props na ''name'' = Some (PStr ''Acme'') \<and>
     props na ''accountOwnerGuid'' = Some (PStr ''u-9'') \<and>
     sync_customer acme_corp wa = (Inr True, wb) \<and>
     customers_with ''c-1'' wb = [nb] \<and>
     nid nb = nid na \<and>
     props nb ''guid'' = Some (PStr ''c-1'') \<and>
     props nb ''name'' = Some (PStr ''Acme Corp'') \<and>
     props nb ''accountOwnerGuid'' = None \<and>
     sync_customer acme_corp wb = (Inr True, wc) \<and>
     nodes wc = nodes wb \<and> rels wc = rels wb"
proof -
  have "\<not> faults w0 (trips w0)" "\<not> faults w0 (Suc (trips w0))"
    "\<not> faults w0 (Suc (Suc (trips w0)))"
    "length (customers_with ''c-1'' w0) \<le> 1"
    by (simp_all add: w0_def customers_with_def)
  then show ?thesis by (rule customer_merge_last_write_wins)
qed

theorem owner_field_ignored_counterexample:
  "fst (sync_customer acme_owner w0) = Inr True \<and>
   column ''guid'' (snd (sync_customer acme_owner w0)) = [Some (PStr ''c-1'')] \<and>
   column ''name'' (snd (sync_customer acme_owner w0)) = [Some (PStr ''Acme'')] \<and>
   column ''ownerGuid'' (snd (sync_customer acme_owner w0)) = [None] \<and>
   column ''accountOwnerGuid'' (snd (sync_customer acme_owner w0)) = [None]"
  by (simp add: sync_customer_def acme_owner_def nested_guid_def dict_get_def
        execute_query_def session_run_def bind_err_def merge_set_def is_node_def w0_def
        column_def Let_def)

end
